theory Spec2Isabelle
  imports Complex_Main
begin

section \<open>JavaScript numbers\<close>

text \<open>
  A TypeScript \<open>number\<close> is an IEEE-754 double (binary64). The model keeps the three
  special values that the validators of the billing system test for (\<open>NaN\<close>,
  \<open>Infinity\<close>, \<open>-Infinity\<close>) and represents every finite double by the real number it
  denotes. The only simplification is that \<open>-0\<close> is identified with \<open>0\<close>: the two are
  equal for \<open>===\<close> and for the relational operators, and a division by zero is the
  one by \<open>+0\<close>.
\<close>

datatype number = NaN | PosInf | NegInf | Fin real

subsection \<open>Rounding to binary64\<close>

text \<open>
  \<open>expo x\<close> is the binary exponent of a real \<open>x \<noteq> 0\<close>: the integer \<open>e\<close> with
  \<open>2 powi e \<le> \<bar>x\<bar> < 2 powi (e + 1)\<close>. It is found by halving a magnitude of at least
  \<open>2\<close> and by doubling a magnitude below \<open>1\<close>.
\<close>

function expo_up :: "real \<Rightarrow> int" where
  "expo_up x = (if 2 \<le> x then expo_up (x / 2) + 1 else 0)"
  by pat_completeness auto
termination
proof (relation "measure (\<lambda>x. nat \<lfloor>x\<rfloor>)")
  show "wf (measure (\<lambda>x. nat \<lfloor>x\<rfloor>))" by simp
next
  fix x :: real
  assume x: "2 \<le> x"
  have "\<lfloor>x / 2\<rfloor> < \<lfloor>x\<rfloor>"
  proof -
    have "x / 2 < of_int \<lfloor>x\<rfloor>"
    proof -
      have "x < of_int \<lfloor>x\<rfloor> + 1" by linarith
      moreover have "2 \<le> (of_int \<lfloor>x\<rfloor> :: real)"
        using x by (metis floor_numeral floor_mono of_int_le_iff of_int_numeral)
      ultimately show ?thesis by linarith
    qed
    then show ?thesis by (simp add: floor_less_iff)
  qed
  moreover have "0 < \<lfloor>x\<rfloor>" using x by linarith
  ultimately show "(x / 2, x) \<in> measure (\<lambda>x. nat \<lfloor>x\<rfloor>)" by simp
qed

function expo_down :: "real \<Rightarrow> int" where
  "expo_down x = (if 0 < x \<and> x < 1 then expo_down (x * 2) - 1 else 0)"
  by pat_completeness auto
termination
proof (relation "measure (\<lambda>x. nat \<lceil>1 / x\<rceil>)")
  show "wf (measure (\<lambda>x. nat \<lceil>1 / x\<rceil>))" by simp
next
  fix x :: real
  assume x: "0 < x \<and> x < 1"
  then have y: "1 < 1 / x" by simp
  have c: "2 \<le> \<lceil>1 / x\<rceil>" using y by linarith
  have "1 / (x * 2) \<le> of_int (\<lceil>1 / x\<rceil> - 1)"
  proof -
    have "1 / x \<le> of_int \<lceil>1 / x\<rceil>" by linarith
    then have "1 / (x * 2) \<le> of_int \<lceil>1 / x\<rceil> / 2" by simp
    also have "\<dots> \<le> of_int (\<lceil>1 / x\<rceil> - 1)" using c by simp
    finally show ?thesis .
  qed
  then have "\<lceil>1 / (x * 2)\<rceil> \<le> \<lceil>1 / x\<rceil> - 1" by (rule ceiling_le)
  then have "nat \<lceil>1 / (x * 2)\<rceil> < nat \<lceil>1 / x\<rceil>" using c by linarith
  then show "(x * 2, x) \<in> measure (\<lambda>x. nat \<lceil>1 / x\<rceil>)" by simp
qed

declare expo_up.simps [simp del] expo_down.simps [simp del]

definition expo :: "real \<Rightarrow> int" where
  "expo x = (if 1 \<le> \<bar>x\<bar> then expo_up \<bar>x\<bar> else expo_down \<bar>x\<bar>)"

text \<open>The integer nearest to a real, a tie going to the even one.\<close>

definition roundTiesToEven :: "real \<Rightarrow> int" where
  "roundTiesToEven x =
     (let f = \<lfloor>x\<rfloor>; d = x - of_int f
      in if d < 1 / 2 then f else if 1 / 2 < d then f + 1 else if even f then f else f + 1)"

text \<open>
  \<open>binary64 x\<close> is the double that an operation with the exact result \<open>x\<close> returns, in
  the rounding mode of JavaScript (to nearest, ties to even). A double has a significand
  of \<open>53\<close> bits, so around \<open>x\<close> the doubles are the multiples of \<open>2 powi (e - 52)\<close> for
  the exponent \<open>e\<close> of \<open>x\<close>, which is not taken below \<open>-1022\<close> (the subnormal range, with
  multiples of \<open>2 powi (- 1074)\<close>). A result that rounds to a magnitude of \<open>2 powi 1024\<close>
  or more overflows to an infinity. A decimal literal of the source denotes the double
  nearest to it: \<open>0.07\<close> is \<open>binary64 (7 / 100)\<close>.
\<close>

definition binary64 :: "real \<Rightarrow> number" where
  "binary64 x =
     (if x = 0 then Fin 0
      else
        (let e = max (expo x) (- 1022);
             u = 2 powi (e - 52);
             r = of_int (roundTiesToEven (x / u)) * u
         in if 2 powi 1024 \<le> \<bar>r\<bar> then (if 0 < x then PosInf else NegInf) else Fin r))"

subsection \<open>Predicates and operators\<close>

fun isNaN :: "number \<Rightarrow> bool" where
  "isNaN NaN = True"
| "isNaN _ = False"

fun isFinite :: "number \<Rightarrow> bool" where
  "isFinite (Fin _) = True"
| "isFinite _ = False"

text \<open>The relational operators \<open><\<close>, \<open><=\<close> and \<open>===\<close>: every comparison with \<open>NaN\<close> is false.\<close>

fun js_lt :: "number \<Rightarrow> number \<Rightarrow> bool" where
  "js_lt NaN _ = False"
| "js_lt _ NaN = False"
| "js_lt (Fin a) (Fin b) = (a < b)"
| "js_lt (Fin _) PosInf = True"
| "js_lt (Fin _) NegInf = False"
| "js_lt PosInf _ = False"
| "js_lt NegInf NegInf = False"
| "js_lt NegInf _ = True"

fun js_eq :: "number \<Rightarrow> number \<Rightarrow> bool" where
  "js_eq NaN _ = False"
| "js_eq _ NaN = False"
| "js_eq a b = (a = b)"

definition js_le :: "number \<Rightarrow> number \<Rightarrow> bool" where
  "js_le a b = (js_lt a b \<or> js_eq a b)"

definition js_gt :: "number \<Rightarrow> number \<Rightarrow> bool" where
  "js_gt a b = js_lt b a"

definition js_ge :: "number \<Rightarrow> number \<Rightarrow> bool" where
  "js_ge a b = js_le b a"

text \<open>
  The arithmetic operators \<open>+\<close>, unary \<open>-\<close>, binary \<open>-\<close>, \<open>*\<close> and \<open>/\<close>. On finite
  operands each of them returns the exact result rounded to a double; the negation of a
  double is a double.
\<close>

fun js_add :: "number \<Rightarrow> number \<Rightarrow> number" where
  "js_add NaN _ = NaN"
| "js_add _ NaN = NaN"
| "js_add (Fin a) (Fin b) = binary64 (a + b)"
| "js_add PosInf NegInf = NaN"
| "js_add NegInf PosInf = NaN"
| "js_add PosInf _ = PosInf"
| "js_add NegInf _ = NegInf"
| "js_add (Fin _) b = b"

fun js_neg :: "number \<Rightarrow> number" where
  "js_neg NaN = NaN"
| "js_neg PosInf = NegInf"
| "js_neg NegInf = PosInf"
| "js_neg (Fin a) = Fin (- a)"

definition js_sub :: "number \<Rightarrow> number \<Rightarrow> number" where
  "js_sub a b = js_add a (js_neg b)"

text \<open>The sign of a number that is not \<open>NaN\<close>: \<open>-1\<close>, \<open>0\<close> or \<open>1\<close>.\<close>

fun js_sign :: "number \<Rightarrow> int" where
  "js_sign NaN = 0"
| "js_sign PosInf = 1"
| "js_sign NegInf = - 1"
| "js_sign (Fin a) = (if a < 0 then - 1 else if a = 0 then 0 else 1)"

definition signed_inf :: "int \<Rightarrow> number" where
  "signed_inf s = (if s < 0 then NegInf else PosInf)"

fun js_mul :: "number \<Rightarrow> number \<Rightarrow> number" where
  "js_mul NaN _ = NaN"
| "js_mul _ NaN = NaN"
| "js_mul (Fin a) (Fin b) = binary64 (a * b)"
| "js_mul a b =
     (if js_sign a = 0 \<or> js_sign b = 0 then NaN else signed_inf (js_sign a * js_sign b))"

fun js_div :: "number \<Rightarrow> number \<Rightarrow> number" where
  "js_div NaN _ = NaN"
| "js_div _ NaN = NaN"
| "js_div (Fin a) (Fin b) =
     (if b = 0 then (if a = 0 then NaN else signed_inf (js_sign (Fin a))) else binary64 (a / b))"
| "js_div (Fin _) _ = Fin 0"
| "js_div a (Fin b) = signed_inf (js_sign a * (if b < 0 then - 1 else 1))"
| "js_div _ _ = NaN"

text \<open>
  \<open>Math.round\<close> returns the nearest integer and resolves a tie towards \<open>+Infinity\<close>:
  \<open>Math.round(2.5)\<close> is \<open>3\<close> and \<open>Math.round(-2.5)\<close> is \<open>-2\<close>. The special values
  are returned unchanged. The result is exact: the integer nearest to a double is a
  double.
\<close>

fun math_round :: "number \<Rightarrow> number" where
  "math_round (Fin a) = Fin (of_int \<lfloor>a + 1 / 2\<rfloor>)"
| "math_round a = a"

section \<open>Financial calculation utilities (utils/calculations.ts)\<close>

definition roundToTwoDecimals :: "number \<Rightarrow> number" where
  "roundToTwoDecimals v = js_div (math_round (js_mul v (Fin 100))) (Fin 100)"

definition calculateTaxAmount :: "number \<Rightarrow> number \<Rightarrow> number" where
  "calculateTaxAmount amount taxRate = roundToTwoDecimals (js_mul amount taxRate)"

text \<open>\<open>values.reduce((acc, val) => acc + val, 0)\<close> is a left fold starting from \<open>0\<close>.\<close>

definition sumWithRounding :: "number list \<Rightarrow> number" where
  "sumWithRounding vs = roundToTwoDecimals (foldl js_add (Fin 0) vs)"

text \<open>
  The rounding rule in the words of the specification: round-half-away-from-zero
  applied to \<open>x * 100\<close>, then divided by \<open>100\<close>.
\<close>

definition roundHalfAwayFromZero :: "real \<Rightarrow> real" where
  "roundHalfAwayFromZero y = (if y < 0 then - of_int \<lfloor>- y + 1 / 2\<rfloor> else of_int \<lfloor>y + 1 / 2\<rfloor>)"

definition roundCurrency_spec :: "real \<Rightarrow> real" where
  "roundCurrency_spec x = roundHalfAwayFromZero (x * 100) / 100"

section \<open>Data model (types/index.ts)\<close>

datatype InvoiceStatus = PENDING | PARTIALLY_PAID | PAID | OVERPAID | CANCELLED

datatype PaymentStatus = PENDING | COMPLETED | FAILED | REFUNDED

text \<open>
  The members of the enum \<open>PaymentMethod\<close> are strings at run time, and
  \<open>validatePaymentMethod\<close> checks an arbitrary string against them, so a payment method
  is a string here. \<open>PaymentMethod_values\<close> is \<open>Object.values(PaymentMethod)\<close>.
\<close>

type_synonym PaymentMethod = string

definition PaymentMethod_values :: "PaymentMethod list" where
  "PaymentMethod_values = [''CASH'', ''BANK_TRANSFER'', ''CREDIT_CARD'', ''DEBIT_CARD'', ''CHECK'']"

text \<open>A \<open>Date\<close> object holds a time value, which is \<open>NaN\<close> for an invalid date.\<close>

datatype Date = Date (getTime: number)

record InvoiceItem =
  id :: string
  description :: string
  quantity :: number
  unitPrice :: number
  lineTotal :: number
  taxRate :: number
  taxAmount :: number

record Invoice =
  id :: string
  invoiceNumber :: string
  invoiceDate :: Date
  items :: "InvoiceItem list"
  subtotal :: number
  totalAmount :: number
  totalTax :: number
  outstandingAmount :: number
  status :: InvoiceStatus

record Payment =
  id :: string
  invoiceId :: string
  paymentMethod :: PaymentMethod
  amount :: number
  paymentDate :: Date
  referenceNumber :: string
  status :: PaymentStatus

record ReceiptItem =
  description :: string
  amountAllocated :: number

record Receipt =
  id :: string
  paymentId :: string
  invoiceId :: string
  receiptNumber :: string
  receiptDate :: Date
  totalPaid :: number
  remainingBalance :: number
  paymentMethod :: PaymentMethod
  paymentReference :: string
  items :: "ReceiptItem list"

record InvoiceTotals =
  subtotal :: number
  totalTax :: number
  totalAmount :: number
  items :: "InvoiceItem list"

record PaymentResult =
  success :: bool
  payment :: Payment
  invoice :: Invoice
  error :: "string option"

record InvoiceItemInput =
  description :: string
  quantity :: number
  unitPrice :: number

section \<open>Errors (utils/errors.ts)\<close>

text \<open>
  A thrown exception is a value: the two error classes of the billing system and the
  plain \<open>Error\<close> of \<open>generateReceipt\<close>, each with its message.
\<close>

datatype error = ValidationError string | PaymentError string | Error string

fun message :: "error \<Rightarrow> string" where
  "message (ValidationError m) = m"
| "message (PaymentError m) = m"
| "message (Error m) = m"

text \<open>
  A validator returns \<open>None\<close> when it returns normally and \<open>Some e\<close> when it throws
  \<open>e\<close>; \<open>check v k\<close> runs the validator \<open>v\<close> and continues with \<open>k\<close> unless it threw.
\<close>

definition check :: "error option \<Rightarrow> error + 'a \<Rightarrow> error + 'a" where
  "check v k = (case v of Some e \<Rightarrow> Inl e | None \<Rightarrow> k)"

section \<open>Environment: configuration and library functions\<close>

text \<open>
  The configured limits (config/index.ts reads them from the process environment) and
  the library functions whose results the repository does not determine: the uuid
  generator (\<open>uuidv4 env k\<close> is the result of the \<open>k\<close>-th call), the conversion of a
  number to a string in a template literal or by \<open>String\<close>, \<open>toLocaleString\<close>, and the
  local-time getters of \<open>Date\<close>.
\<close>

record Env =
  maxInvoiceAmount :: number
  maxPaymentAmount :: number
  maxLineItemAmount :: number
  minPaymentAmount :: number
  uuidv4 :: "nat \<Rightarrow> string"
  numberToString :: "number \<Rightarrow> string"
  toLocaleString :: "number \<Rightarrow> string"
  getFullYear :: "Date \<Rightarrow> number"
  getMonth :: "Date \<Rightarrow> number"
  getDate :: "Date \<Rightarrow> number"

section \<open>Validation utilities (utils/validation.ts)\<close>

text \<open>
  \<open>String.prototype.trim\<close> removes white space and line terminators from both ends.
  A \<open>char\<close> stands for a code unit below 256; among those the characters removed are
  tab, line feed, vertical tab, form feed, carriage return, space and no-break space.
\<close>

definition isWhiteSpace :: "char \<Rightarrow> bool" where
  "isWhiteSpace c = (c \<in> set [CHR 0x09, CHR 0x0A, CHR 0x0B, CHR 0x0C, CHR 0x0D, CHR 0x20, CHR 0xA0])"

definition trim :: "string \<Rightarrow> string" where
  "trim s = rev (dropWhile isWhiteSpace (rev (dropWhile isWhiteSpace s)))"

definition validatePositiveNumber :: "number \<Rightarrow> string \<Rightarrow> error option" where
  "validatePositiveNumber v fieldName =
     (if isNaN v then Some (ValidationError (fieldName @ '' must be a valid number''))
      else if js_le v (Fin 0) then Some (ValidationError (fieldName @ '' must be positive''))
      else if \<not> isFinite v then Some (ValidationError (fieldName @ '' must be a finite number''))
      else None)"

definition validateNonNegativeNumber :: "number \<Rightarrow> string \<Rightarrow> error option" where
  "validateNonNegativeNumber v fieldName =
     (if isNaN v then Some (ValidationError (fieldName @ '' must be a valid number''))
      else if js_lt v (Fin 0) then Some (ValidationError (fieldName @ '' cannot be negative''))
      else if \<not> isFinite v then Some (ValidationError (fieldName @ '' must be a finite number''))
      else None)"

definition validateNonEmptyString :: "string \<Rightarrow> string \<Rightarrow> error option" where
  "validateNonEmptyString v fieldName =
     (if length (trim v) = 0 then Some (ValidationError (fieldName @ '' cannot be empty''))
      else None)"

definition validateNonEmptyArray :: "'a list \<Rightarrow> string \<Rightarrow> error option" where
  "validateNonEmptyArray v fieldName =
     (if length v = 0 then Some (ValidationError (fieldName @ '' cannot be empty''))
      else None)"

definition validateDate :: "Date \<Rightarrow> string \<Rightarrow> error option" where
  "validateDate v fieldName =
     (if isNaN (getTime v) then Some (ValidationError (fieldName @ '' must be a valid date''))
      else None)"

text \<open>\<open>join sep xs\<close> is \<open>xs.join(sep)\<close>.\<close>

fun join :: "string \<Rightarrow> string list \<Rightarrow> string" where
  "join sep [] = []"
| "join sep [x] = x"
| "join sep (x # y # ys) = x @ sep @ join sep (y # ys)"

definition validatePaymentMethod :: "string \<Rightarrow> error option" where
  "validatePaymentMethod v =
     (if v \<notin> set PaymentMethod_values
      then Some (ValidationError
        (''Invalid payment method. Must be one of: '' @ join '', '' PaymentMethod_values))
      else None)"

definition validateTaxRate :: "number \<Rightarrow> error option" where
  "validateTaxRate r =
     (case validateNonNegativeNumber r ''Tax rate'' of
        Some e \<Rightarrow> Some e
      | None \<Rightarrow>
          if js_gt r (Fin 1)
          then Some (ValidationError ''Tax rate must be between 0 and 1 (e.g., 0.07 for 7%)'')
          else None)"

definition validatePaymentAmountLimits :: "Env \<Rightarrow> number \<Rightarrow> error option" where
  "validatePaymentAmountLimits env a =
     (let minAmount = minPaymentAmount env; maxAmount = maxPaymentAmount env in
      if js_lt a minAmount
      then Some (ValidationError (''Payment amount must be at least $'' @ numberToString env minAmount))
      else if js_gt a maxAmount
      then Some (ValidationError (''Payment amount cannot exceed $'' @ toLocaleString env maxAmount))
      else None)"

definition validateInvoiceAmount :: "Env \<Rightarrow> number \<Rightarrow> error option" where
  "validateInvoiceAmount env a =
     (let maxAmount = maxInvoiceAmount env in
      if js_gt a maxAmount
      then Some (ValidationError (''Invoice amount cannot exceed $'' @ toLocaleString env maxAmount))
      else None)"

definition validateLineItemAmount :: "Env \<Rightarrow> number \<Rightarrow> error option" where
  "validateLineItemAmount env a =
     (let maxAmount = maxLineItemAmount env in
      if js_gt a maxAmount
      then Some (ValidationError (''Line item amount cannot exceed $'' @ toLocaleString env maxAmount))
      else None)"

section \<open>Identifiers and reference numbers (utils/generators.ts)\<close>

text \<open>
  The module-level counters and the number of identifiers drawn from the uuid generator
  so far. Every function that reads or advances them takes the state and returns the
  new one.
\<close>

record GenState =
  uuidCalls :: nat
  invoiceCounter :: nat
  receiptCounter :: nat
  paymentCounter :: nat

definition generateId :: "Env \<Rightarrow> GenState \<Rightarrow> string \<times> GenState" where
  "generateId env st = (uuidv4 env (uuidCalls st), st\<lparr>uuidCalls := Suc (uuidCalls st)\<rparr>)"

text \<open>\<open>padStart n p s\<close> is \<open>s.padStart(n, p)\<close>.\<close>

definition padStart :: "nat \<Rightarrow> string \<Rightarrow> string \<Rightarrow> string" where
  "padStart n p s =
     (if n \<le> length s \<or> p = [] then s
      else take (n - length s) (concat (replicate (n - length s) p)) @ s)"

definition formatDateForReference :: "Env \<Rightarrow> Date \<Rightarrow> string" where
  "formatDateForReference env d =
     (let year = getFullYear env d;
          month = padStart 2 ''0'' (numberToString env (js_add (getMonth env d) (Fin 1)));
          day = padStart 2 ''0'' (numberToString env (getDate env d))
      in numberToString env year @ month @ day)"


definition generateReceiptNumber :: "Env \<Rightarrow> Date \<Rightarrow> GenState \<Rightarrow> string \<times> GenState" where
  "generateReceiptNumber env d st =
     (let st' = st\<lparr>receiptCounter := Suc (receiptCounter st)\<rparr>;
          dateStr = formatDateForReference env d;
          counter = padStart 4 ''0'' (numberToString env (Fin (of_nat (receiptCounter st'))))
      in (''RCP-'' @ dateStr @ ''-'' @ counter, st'))"

definition generatePaymentReference :: "Env \<Rightarrow> Date \<Rightarrow> GenState \<Rightarrow> string \<times> GenState" where
  "generatePaymentReference env d st =
     (let st' = st\<lparr>paymentCounter := Suc (paymentCounter st)\<rparr>;
          dateStr = formatDateForReference env d;
          counter = padStart 4 ''0'' (numberToString env (Fin (of_nat (paymentCounter st'))))
      in (''PAY-'' @ dateStr @ ''-'' @ counter, st'))"

section \<open>Invoice service (services/invoice.service.ts)\<close>

text \<open>
  A function that can throw and that uses the generators returns its result or the
  thrown error together with the state it leaves behind.
\<close>

text \<open>The callback of \<open>items.map\<close> in \<open>calculateInvoiceTotal\<close>.\<close>

definition processItem ::
  "Env \<Rightarrow> number \<Rightarrow> InvoiceItemInput \<Rightarrow> GenState \<Rightarrow> (error + InvoiceItem) \<times> GenState" where
  "processItem env rate item st =
     (let lineSubtotal =
            roundToTwoDecimals (js_mul (InvoiceItemInput.quantity item) (InvoiceItemInput.unitPrice item))
      in case check (validateNonEmptyString (InvoiceItemInput.description item) ''Item description'')
             (check (validatePositiveNumber (InvoiceItemInput.quantity item) ''Item quantity'')
             (check (validateNonNegativeNumber (InvoiceItemInput.unitPrice item) ''Item unit price'')
             (check (validateLineItemAmount env lineSubtotal) (Inr ())))) of
           Inl e \<Rightarrow> (Inl e, st)
         | Inr _ \<Rightarrow>
             (let taxAmount = calculateTaxAmount lineSubtotal rate;
                  lineTotal = roundToTwoDecimals (js_add lineSubtotal taxAmount);
                  (newId, st1) = generateId env st
              in (Inr \<lparr>InvoiceItem.id = newId,
                       InvoiceItem.description = InvoiceItemInput.description item,
                       InvoiceItem.quantity = InvoiceItemInput.quantity item,
                       InvoiceItem.unitPrice = InvoiceItemInput.unitPrice item,
                       InvoiceItem.lineTotal = lineTotal,
                       InvoiceItem.taxRate = rate,
                       InvoiceItem.taxAmount = taxAmount\<rparr>, st1)))"

text \<open>\<open>items.map\<close> calls the callback on the items in order and stops at the first throw.\<close>

fun processItems ::
  "Env \<Rightarrow> number \<Rightarrow> InvoiceItemInput list \<Rightarrow> GenState \<Rightarrow> (error + InvoiceItem list) \<times> GenState" where
  "processItems env rate [] st = (Inr [], st)"
| "processItems env rate (item # rest) st =
     (case processItem env rate item st of
        (Inl e, st1) \<Rightarrow> (Inl e, st1)
      | (Inr processed, st1) \<Rightarrow>
          (case processItems env rate rest st1 of
             (Inl e, st2) \<Rightarrow> (Inl e, st2)
           | (Inr processedRest, st2) \<Rightarrow> (Inr (processed # processedRest), st2)))"

definition calculateInvoiceTotal ::
  "Env \<Rightarrow> InvoiceItemInput list \<Rightarrow> number \<Rightarrow> GenState \<Rightarrow> (error + InvoiceTotals) \<times> GenState" where
  "calculateInvoiceTotal env inputs rate st =
     (case check (validateNonEmptyArray inputs ''Invoice items'')
             (check (validateTaxRate rate) (Inr ())) of
        Inl e \<Rightarrow> (Inl e, st)
      | Inr _ \<Rightarrow>
          (case processItems env rate inputs st of
             (Inl e, st1) \<Rightarrow> (Inl e, st1)
           | (Inr processedItems, st1) \<Rightarrow>
               (let subtotal = sumWithRounding
                      (map (\<lambda>item. roundToTwoDecimals
                              (js_mul (InvoiceItem.quantity item) (InvoiceItem.unitPrice item)))
                         processedItems);
                    totalTax = sumWithRounding (map InvoiceItem.taxAmount processedItems);
                    totalAmount = roundToTwoDecimals (js_add subtotal totalTax)
                in case validateInvoiceAmount env totalAmount of
                     Some e \<Rightarrow> (Inl e, st1)
                   | None \<Rightarrow>
                       (Inr \<lparr>InvoiceTotals.subtotal = subtotal,
                             InvoiceTotals.totalTax = totalTax,
                             InvoiceTotals.totalAmount = totalAmount,
                             InvoiceTotals.items = processedItems\<rparr>, st1))))"


definition updateInvoiceStatus :: "Invoice \<Rightarrow> Invoice" where
  "updateInvoiceStatus iv =
     (let newStatus =
        (if js_gt (Invoice.outstandingAmount iv) (Fin 0)
            \<and> js_lt (Invoice.outstandingAmount iv) (Invoice.totalAmount iv)
         then PARTIALLY_PAID
         else if js_eq (Invoice.outstandingAmount iv) (Fin 0) then PAID
         else if js_lt (Invoice.outstandingAmount iv) (Fin 0) then OVERPAID
         else InvoiceStatus.PENDING)
      in iv\<lparr>Invoice.status := newStatus\<rparr>)"

text \<open>
  On values, the copy made by \<open>cloneInvoice\<close> has the fields of the original: a new
  \<open>Date\<close> with the same time value and a new array of copies of the items.
\<close>

definition cloneInvoice :: "Invoice \<Rightarrow> Invoice" where
  "cloneInvoice iv =
     iv\<lparr>Invoice.invoiceDate := Date (getTime (Invoice.invoiceDate iv)),
             Invoice.items := map (\<lambda>item. item) (Invoice.items iv)\<rparr>"

section \<open>Payment service (services/payment.service.ts)\<close>

text \<open>
  The body of the \<open>try\<close> block of \<open>processPayment\<close>: \<open>Inl e\<close> when it throws \<open>e\<close>.
  Every throw comes before the first call of a generator, so the \<open>catch\<close> block starts
  from the state the function was called in. The payment date is an argument here; the
  default of the source, \<open>new Date()\<close>, is the date the caller's clock gives.
\<close>

definition processPayment_try ::
  "Env \<Rightarrow> Invoice \<Rightarrow> number \<Rightarrow> PaymentMethod \<Rightarrow> Date \<Rightarrow> GenState
     \<Rightarrow> error + (PaymentResult \<times> GenState)" where
  "processPayment_try env iv paymentAmount method date st =
     check (validatePositiveNumber paymentAmount ''Payment amount'')
    (check (validatePaymentAmountLimits env paymentAmount)
    (check (validatePaymentMethod method)
    (check (validateDate date ''Payment date'')
    (check (validateNonEmptyString (Invoice.id iv) ''Invoice ID'')
    (if Invoice.status iv = CANCELLED
     then Inl (PaymentError ''Cannot process payment for a cancelled invoice'')
     else
       (let (newId, st1) = generateId env st;
            (reference, st2) = generatePaymentReference env date st1;
            payment = \<lparr>Payment.id = newId,
                       Payment.invoiceId = Invoice.id iv,
                       Payment.paymentMethod = method,
                       Payment.amount = paymentAmount,
                       Payment.paymentDate = date,
                       Payment.referenceNumber = reference,
                       Payment.status = COMPLETED\<rparr>;
            updatedInvoice = cloneInvoice iv;
            updatedInvoice = updatedInvoice
              \<lparr>Invoice.outstandingAmount :=
                 roundToTwoDecimals (js_sub (Invoice.outstandingAmount updatedInvoice) paymentAmount)\<rparr>;
            finalInvoice = updateInvoiceStatus updatedInvoice
        in Inr (\<lparr>PaymentResult.success = True,
                  PaymentResult.payment = payment,
                  PaymentResult.invoice = finalInvoice,
                  PaymentResult.error = None\<rparr>, st2)))))))"

definition processPayment ::
  "Env \<Rightarrow> Invoice \<Rightarrow> number \<Rightarrow> PaymentMethod \<Rightarrow> Date \<Rightarrow> GenState
     \<Rightarrow> PaymentResult \<times> GenState" where
  "processPayment env iv paymentAmount method date st =
     (case processPayment_try env iv paymentAmount method date st of
        Inr r \<Rightarrow> r
      | Inl e \<Rightarrow>
          (let (newId, st1) = generateId env st;
               (reference, st2) = generatePaymentReference env date st1;
               failedPayment = \<lparr>Payment.id = newId,
                                Payment.invoiceId = Invoice.id iv,
                                Payment.paymentMethod = method,
                                Payment.amount = paymentAmount,
                                Payment.paymentDate = date,
                                Payment.referenceNumber = reference,
                                Payment.status = FAILED\<rparr>
           in (\<lparr>PaymentResult.success = False,
                PaymentResult.payment = failedPayment,
                PaymentResult.invoice = iv,
                PaymentResult.error = Some (message e)\<rparr>, st2)))"

text \<open>
  The conditions under which the \<open>try\<close> block throws, read off the validators in the
  order of the calls: the amount is \<open>NaN\<close>, not positive or not finite; it is below the
  configured minimum or above the configured maximum; the payment method is not a member
  of the enum; the date is invalid; the invoice id is empty after trimming; the invoice
  is cancelled.
\<close>

abbreviation processPayment_throws ::
  "Env \<Rightarrow> Invoice \<Rightarrow> number \<Rightarrow> PaymentMethod \<Rightarrow> Date \<Rightarrow> bool" where
  "processPayment_throws env iv a m d \<equiv>
     isNaN a \<or> js_le a (Fin 0) \<or> \<not> isFinite a
     \<or> js_lt a (minPaymentAmount env) \<or> js_gt a (maxPaymentAmount env)
     \<or> m \<notin> set PaymentMethod_values
     \<or> isNaN (getTime d)
     \<or> length (trim (Invoice.id iv)) = 0
     \<or> Invoice.status iv = CANCELLED"

section \<open>Receipt service (services/receipt.service.ts)\<close>

text \<open>
  \<open>invoice.items.map((item, index) => ...)\<close> runs over the items paired with their
  indices; \<open>slice(0, index)\<close> is \<open>take index\<close> and \<open>reduce\<close> is a left fold from \<open>0\<close>.
\<close>

definition allocatePaymentToItems :: "number \<Rightarrow> Invoice \<Rightarrow> ReceiptItem list" where
  "allocatePaymentToItems paymentAmount iv =
     (if js_ge paymentAmount (Invoice.totalAmount iv)
      then map (\<lambda>item. \<lparr>ReceiptItem.description = InvoiceItem.description item,
                        ReceiptItem.amountAllocated = InvoiceItem.lineTotal item\<rparr>)
             (Invoice.items iv)
      else
        (let allocationRatio = js_div paymentAmount (Invoice.totalAmount iv)
         in map (\<lambda>(index, item).
              (let allocated =
                 (if index = length (Invoice.items iv) - 1
                  then
                    (let previousAllocations =
                       foldl (\<lambda>sum prevItem.
                                js_add sum (roundToTwoDecimals
                                  (js_mul (InvoiceItem.lineTotal prevItem) allocationRatio)))
                         (Fin 0) (take index (Invoice.items iv))
                     in roundToTwoDecimals (js_sub paymentAmount previousAllocations))
                  else roundToTwoDecimals (js_mul (InvoiceItem.lineTotal item) allocationRatio))
               in \<lparr>ReceiptItem.description = InvoiceItem.description item,
                   ReceiptItem.amountAllocated = allocated\<rparr>))
              (zip [0 ..< length (Invoice.items iv)] (Invoice.items iv))))"

definition generateReceipt ::
  "Env \<Rightarrow> Payment \<Rightarrow> Invoice \<Rightarrow> GenState \<Rightarrow> (error + Receipt) \<times> GenState" where
  "generateReceipt env pay iv st =
     (case check (validateNonEmptyString (Payment.id pay) ''Payment ID'')
            (check (validateNonEmptyString (Invoice.id iv) ''Invoice ID'')
            (check (validateDate (Payment.paymentDate pay) ''Payment date'')
            (if Payment.invoiceId pay \<noteq> Invoice.id iv
             then Inl (Error ''Payment invoice ID does not match provided invoice'')
             else Inr ()))) of
        Inl e \<Rightarrow> (Inl e, st)
      | Inr _ \<Rightarrow>
          (let receiptItems = allocatePaymentToItems (Payment.amount pay) iv;
               (newId, st1) = generateId env st;
               (number, st2) = generateReceiptNumber env (Payment.paymentDate pay) st1
           in (Inr \<lparr>Receipt.id = newId,
                    Receipt.paymentId = Payment.id pay,
                    Receipt.invoiceId = Invoice.id iv,
                    Receipt.receiptNumber = number,
                    Receipt.receiptDate = Payment.paymentDate pay,
                    Receipt.totalPaid = Payment.amount pay,
                    Receipt.remainingBalance = Invoice.outstandingAmount iv,
                    Receipt.paymentMethod = Payment.paymentMethod pay,
                    Receipt.paymentReference = Payment.referenceNumber pay,
                    Receipt.items = receiptItems\<rparr>, st2)))"

text \<open>
  The total of a receipt's allocations, as the tests compute it:
  \<open>receipt.items.reduce((sum, item) => sum + item.amountAllocated, 0)\<close>.
\<close>

definition totalAllocated :: "ReceiptItem list \<Rightarrow> number" where
  "totalAllocated ris = foldl (\<lambda>sum item. js_add sum (ReceiptItem.amountAllocated item)) (Fin 0) ris"

section \<open>Objects and references\<close>

text \<open>
  \<open>processPayment\<close> receives a reference to an invoice object, which refers to a
  \<open>Date\<close> object and to an array of references to item objects. To say that these
  objects are not changed and that the returned invoice is another object, the object
  store is made explicit here: a list of objects, where an address is an index and a
  new object is appended. A reference to an object of the wrong kind, which the types of
  the program exclude, gives \<open>None\<close>.
\<close>

type_synonym addr = nat

record InvoiceObject =
  id :: string
  invoiceNumber :: string
  invoiceDate :: addr
  items :: addr
  subtotal :: number
  totalAmount :: number
  totalTax :: number
  outstandingAmount :: number
  status :: InvoiceStatus

datatype object =
    InvoiceObj InvoiceObject
  | DateObj number
  | ArrayObj "addr list"
  | ItemObj InvoiceItem

type_synonym Heap = "object list"

definition lookup :: "Heap \<Rightarrow> addr \<Rightarrow> object option" where
  "lookup h a = (if a < length h then Some (h ! a) else None)"

definition alloc :: "object \<Rightarrow> Heap \<Rightarrow> addr \<times> Heap" where
  "alloc ob h = (length h, h @ [ob])"

text \<open>\<open>invoice.items.map(item => ({ ...item }))\<close>: a new object for every item, in order.\<close>

fun copyItems :: "addr list \<Rightarrow> Heap \<Rightarrow> (addr list \<times> Heap) option" where
  "copyItems [] h = Some ([], h)"
| "copyItems (r # rs) h =
     (case lookup h r of
        Some (ItemObj item) \<Rightarrow>
          (let (r1, h1) = alloc (ItemObj item) h
           in case copyItems rs h1 of
                Some (rs1, h2) \<Rightarrow> Some (r1 # rs1, h2)
              | None \<Rightarrow> None)
      | _ \<Rightarrow> None)"

text \<open>
  \<open>cloneInvoice\<close> on the store: a new \<open>Date\<close> object, new item objects, a new array of
  them and a new invoice object with the remaining fields of the original.
\<close>

definition cloneInvoice_heap :: "addr \<Rightarrow> Heap \<Rightarrow> (addr \<times> Heap) option" where
  "cloneInvoice_heap r h =
     (case lookup h r of
        Some (InvoiceObj io) \<Rightarrow>
          (case lookup h (InvoiceObject.invoiceDate io) of
             Some (DateObj t) \<Rightarrow>
               (case lookup h (InvoiceObject.items io) of
                  Some (ArrayObj refs) \<Rightarrow>
                    (let (dateRef, h1) = alloc (DateObj t) h
                     in case copyItems refs h1 of
                          Some (newRefs, h2) \<Rightarrow>
                            (let (arrayRef, h3) = alloc (ArrayObj newRefs) h2
                             in Some (alloc (InvoiceObj (io\<lparr>InvoiceObject.invoiceDate := dateRef,
                                                             InvoiceObject.items := arrayRef\<rparr>)) h3))
                        | None \<Rightarrow> None)
                | _ \<Rightarrow> None)
           | _ \<Rightarrow> None)
      | _ \<Rightarrow> None)"

text \<open>
  \<open>updateInvoiceStatus\<close> on the store: a new invoice object with the fields of its
  argument, which it shares the date and the array with, and the new status.
\<close>

definition updateInvoiceStatus_heap :: "addr \<Rightarrow> Heap \<Rightarrow> (addr \<times> Heap) option" where
  "updateInvoiceStatus_heap r h =
     (case lookup h r of
        Some (InvoiceObj io) \<Rightarrow>
          (let newStatus =
             (if js_gt (InvoiceObject.outstandingAmount io) (Fin 0)
                 \<and> js_lt (InvoiceObject.outstandingAmount io) (InvoiceObject.totalAmount io)
              then PARTIALLY_PAID
              else if js_eq (InvoiceObject.outstandingAmount io) (Fin 0) then PAID
              else if js_lt (InvoiceObject.outstandingAmount io) (Fin 0) then OVERPAID
              else InvoiceStatus.PENDING)
           in Some (alloc (InvoiceObj (io\<lparr>InvoiceObject.status := newStatus\<rparr>)) h))
      | _ \<Rightarrow> None)"

text \<open>The result of \<open>processPayment\<close> with the invoice as a reference.\<close>

record PaymentResultRef =
  success :: bool
  payment :: Payment
  invoice :: addr
  error :: "string option"

text \<open>
  \<open>processPayment\<close> on the store. The assignment
  \<open>updatedInvoice.outstandingAmount = ...\<close> overwrites the object that \<open>updatedInvoice\<close>
  refers to.
\<close>

definition processPayment_heap ::
  "Env \<Rightarrow> addr \<Rightarrow> number \<Rightarrow> PaymentMethod \<Rightarrow> Date \<Rightarrow> GenState \<Rightarrow> Heap
     \<Rightarrow> (PaymentResultRef \<times> GenState \<times> Heap) option" where
  "processPayment_heap env r paymentAmount method date st h =
     (case lookup h r of
        Some (InvoiceObj io) \<Rightarrow>
          (case check (validatePositiveNumber paymentAmount ''Payment amount'')
                 (check (validatePaymentAmountLimits env paymentAmount)
                 (check (validatePaymentMethod method)
                 (check (validateDate date ''Payment date'')
                 (check (validateNonEmptyString (InvoiceObject.id io) ''Invoice ID'')
                 (if InvoiceObject.status io = CANCELLED
                  then Inl (PaymentError ''Cannot process payment for a cancelled invoice'')
                  else Inr ()))))) of
             Inr _ \<Rightarrow>
               (let (newId, st1) = generateId env st;
                    (reference, st2) = generatePaymentReference env date st1;
                    payment = \<lparr>Payment.id = newId,
                               Payment.invoiceId = InvoiceObject.id io,
                               Payment.paymentMethod = method,
                               Payment.amount = paymentAmount,
                               Payment.paymentDate = date,
                               Payment.referenceNumber = reference,
                               Payment.status = COMPLETED\<rparr>
                in case cloneInvoice_heap r h of
                     Some (updatedInvoice, h1) \<Rightarrow>
                       (case lookup h1 updatedInvoice of
                          Some (InvoiceObj uo) \<Rightarrow>
                            (let h2 = h1[updatedInvoice := InvoiceObj
                                   (uo\<lparr>InvoiceObject.outstandingAmount :=
                                        roundToTwoDecimals
                                          (js_sub (InvoiceObject.outstandingAmount uo) paymentAmount)\<rparr>)]
                             in case updateInvoiceStatus_heap updatedInvoice h2 of
                                  Some (finalInvoice, h3) \<Rightarrow>
                                    Some (\<lparr>PaymentResultRef.success = True,
                                           PaymentResultRef.payment = payment,
                                           PaymentResultRef.invoice = finalInvoice,
                                           PaymentResultRef.error = None\<rparr>, st2, h3)
                                | None \<Rightarrow> None)
                        | _ \<Rightarrow> None)
                   | None \<Rightarrow> None)
           | Inl e \<Rightarrow>
               (let (newId, st1) = generateId env st;
                    (reference, st2) = generatePaymentReference env date st1;
                    failedPayment = \<lparr>Payment.id = newId,
                                     Payment.invoiceId = InvoiceObject.id io,
                                     Payment.paymentMethod = method,
                                     Payment.amount = paymentAmount,
                                     Payment.paymentDate = date,
                                     Payment.referenceNumber = reference,
                                     Payment.status = FAILED\<rparr>
                in Some (\<lparr>PaymentResultRef.success = False,
                          PaymentResultRef.payment = failedPayment,
                          PaymentResultRef.invoice = r,
                          PaymentResultRef.error = Some (message e)\<rparr>, st2, h)))
      | _ \<Rightarrow> None)"

text \<open>
  The value of the invoice that a reference denotes in a store: the fields of the invoice
  object, with the value of its date and the values of its items in place of the
  references.
\<close>

fun readItems :: "Heap \<Rightarrow> addr list \<Rightarrow> InvoiceItem list option" where
  "readItems h [] = Some []"
| "readItems h (r # rs) =
     (case lookup h r of
        Some (ItemObj item) \<Rightarrow>
          (case readItems h rs of Some rest \<Rightarrow> Some (item # rest) | None \<Rightarrow> None)
      | _ \<Rightarrow> None)"

definition readInvoice :: "Heap \<Rightarrow> addr \<Rightarrow> Invoice option" where
  "readInvoice h r =
     (case lookup h r of
        Some (InvoiceObj io) \<Rightarrow>
          (case lookup h (InvoiceObject.invoiceDate io) of
             Some (DateObj t) \<Rightarrow>
               (case lookup h (InvoiceObject.items io) of
                  Some (ArrayObj refs) \<Rightarrow>
                    (case readItems h refs of
                       Some its \<Rightarrow>
                         Some \<lparr>Invoice.id = InvoiceObject.id io,
                               Invoice.invoiceNumber = InvoiceObject.invoiceNumber io,
                               Invoice.invoiceDate = Date t,
                               Invoice.items = its,
                               Invoice.subtotal = InvoiceObject.subtotal io,
                               Invoice.totalAmount = InvoiceObject.totalAmount io,
                               Invoice.totalTax = InvoiceObject.totalTax io,
                               Invoice.outstandingAmount = InvoiceObject.outstandingAmount io,
                               Invoice.status = InvoiceObject.status io\<rparr>
                     | None \<Rightarrow> None)
                | _ \<Rightarrow> None)
           | _ \<Rightarrow> None)
      | _ \<Rightarrow> None)"

section \<open>Sample values\<close>

text \<open>
  The default configuration of config/index.ts with fixed library functions, the state
  after \<open>resetCounters\<close>, and the invoice of the receipt tests: two items of
  \<open>100.00\<close> and \<open>200.00\<close> without tax.
\<close>

definition defaultEnv :: Env where
  "defaultEnv =
     \<lparr>maxInvoiceAmount = Fin 1000000,
      maxPaymentAmount = Fin 1000000,
      maxLineItemAmount = Fin 500000,
      minPaymentAmount = binary64 (1 / 100),
      uuidv4 = (\<lambda>k. ''uuid-'' @ replicate k (CHR ''x'')),
      numberToString = (\<lambda>n. ''?''),
      toLocaleString = (\<lambda>n. ''?''),
      getFullYear = (\<lambda>d. Fin 2023),
      getMonth = (\<lambda>d. Fin 11),
      getDate = (\<lambda>d. Fin 7)\<rparr>"

definition initialState :: GenState where
  "initialState = \<lparr>uuidCalls = 0, invoiceCounter = 0, receiptCounter = 0, paymentCounter = 0\<rparr>"

definition item100 :: InvoiceItem where
  "item100 = \<lparr>InvoiceItem.id = ''item-1'', description = ''Item 1'', quantity = Fin 1,
      unitPrice = Fin 100, lineTotal = Fin 100, taxRate = Fin 0, taxAmount = Fin 0\<rparr>"

definition item200 :: InvoiceItem where
  "item200 = \<lparr>InvoiceItem.id = ''item-2'', description = ''Item 2'', quantity = Fin 1,
      unitPrice = Fin 200, lineTotal = Fin 200, taxRate = Fin 0, taxAmount = Fin 0\<rparr>"

definition invoice300 :: Invoice where
  "invoice300 =
     \<lparr>Invoice.id = ''invoice-1'', invoiceNumber = ''INV-20231207-0001'',
      invoiceDate = Date (Fin 1701907200000), items = [item100, item200],
      subtotal = Fin 300, totalAmount = Fin 300, totalTax = Fin 0,
      outstandingAmount = Fin 300, status = InvoiceStatus.PENDING\<rparr>"

definition validDate :: Date where
  "validDate = Date (Fin 1701907200000)"

text \<open>
  An invoice of two items of \<open>332.43\<close> and \<open>219.59\<close> without tax, \<open>552.02\<close> in all.
\<close>

definition item33243 :: InvoiceItem where
  "item33243 = \<lparr>InvoiceItem.id = ''item-1'', description = ''Item 1'', quantity = Fin 1,
      unitPrice = binary64 (33243 / 100), lineTotal = binary64 (33243 / 100),
      taxRate = Fin 0, taxAmount = Fin 0\<rparr>"

definition item21959 :: InvoiceItem where
  "item21959 = \<lparr>InvoiceItem.id = ''item-2'', description = ''Item 2'', quantity = Fin 1,
      unitPrice = binary64 (21959 / 100), lineTotal = binary64 (21959 / 100),
      taxRate = Fin 0, taxAmount = Fin 0\<rparr>"

definition invoice55202 :: Invoice where
  "invoice55202 =
     \<lparr>Invoice.id = ''invoice-2'', invoiceNumber = ''INV-20231207-0002'',
      invoiceDate = Date (Fin 1701907200000), items = [item33243, item21959],
      subtotal = binary64 (55202 / 100), totalAmount = binary64 (55202 / 100), totalTax = Fin 0,
      outstandingAmount = binary64 (55202 / 100), status = InvoiceStatus.PENDING\<rparr>"

text \<open>The line items of the first scenario of the invoice tests.\<close>

definition monthlyFee :: InvoiceItemInput where
  "monthlyFee = \<lparr>InvoiceItemInput.description = ''Monthly Fee'', quantity = Fin 1, unitPrice = Fin 500\<rparr>"

definition activityFee :: InvoiceItemInput where
  "activityFee = \<lparr>InvoiceItemInput.description = ''Activity Fee'', quantity = Fin 2, unitPrice = Fin (2550 / 100)\<rparr>"

text \<open>
  A store holding the sample invoice: its two items at addresses \<open>0\<close> and \<open>1\<close>, the
  array of them at \<open>2\<close>, its date at \<open>3\<close> and the invoice object at \<open>4\<close>.
\<close>

definition heap300 :: Heap where
  "heap300 =
     [ItemObj item100, ItemObj item200, ArrayObj [0, 1], DateObj (Fin 1701907200000),
      InvoiceObj \<lparr>InvoiceObject.id = ''invoice-1'', invoiceNumber = ''INV-20231207-0001'',
                  invoiceDate = 3, items = 2,
                  subtotal = Fin 300, totalAmount = Fin 300, totalTax = Fin 0,
                  outstandingAmount = Fin 300, status = InvoiceStatus.PENDING\<rparr>]"

section \<open>Verified properties\<close>

subsection \<open>Binary rounding\<close>

text \<open>
  The exponent found by \<open>expo\<close> brackets the magnitude, the nearest integer is within
  a half, and so \<open>binary64\<close> returns a finite double within half a unit in the last
  place of every real below the overflow range.
\<close>

lemma expo_up_bounds:
  "1 \<le> x \<Longrightarrow> 2 powi (expo_up x) \<le> x \<and> x < 2 powi (expo_up x + 1)"
proof (induction x rule: expo_up.induct)
  case (1 x)
  show ?case
  proof (cases "2 \<le> x")
    case True
    then have "1 \<le> x / 2" by simp
    from "1.IH" [OF True this]
    have "2 powi (expo_up (x / 2)) \<le> x / 2" and "x / 2 < 2 powi (expo_up (x / 2) + 1)"
      by simp_all
    then have "2 * 2 powi (expo_up (x / 2)) \<le> x" and "x < 2 * 2 powi (expo_up (x / 2) + 1)"
      by simp_all
    moreover have "expo_up x = expo_up (x / 2) + 1"
      using True by (subst expo_up.simps) simp
    ultimately show ?thesis
      by (simp add: power_int_add)
  next
    case False
    then have "expo_up x = 0" by (subst expo_up.simps) simp
    then show ?thesis using False "1.prems" by simp
  qed
qed

lemma expo_down_bounds:
  "0 < x \<Longrightarrow> x < 1 \<Longrightarrow> 2 powi (expo_down x) \<le> x \<and> x < 2 powi (expo_down x + 1)"
proof (induction x rule: expo_down.induct)
  case (1 x)
  have step: "expo_down x = expo_down (x * 2) - 1"
    using "1.prems" by (subst expo_down.simps) simp
  show ?case
  proof (cases "x * 2 < 1")
    case True
    from "1.IH" [OF _ _ True] "1.prems"
    have "2 powi (expo_down (x * 2)) \<le> x * 2" and "x * 2 < 2 powi (expo_down (x * 2) + 1)"
      by simp_all
    then show ?thesis
      unfolding step by (simp add: power_int_add power_int_diff)
  next
    case False
    then have "expo_down (x * 2) = 0" by (subst expo_down.simps) simp
    then show ?thesis
      unfolding step using False "1.prems" by simp
  qed
qed

lemma expo_bounds:
  assumes "x \<noteq> 0"
  shows "2 powi (expo x) \<le> \<bar>x\<bar>" and "\<bar>x\<bar> < 2 powi (expo x + 1)"
proof -
  have "2 powi (expo x) \<le> \<bar>x\<bar> \<and> \<bar>x\<bar> < 2 powi (expo x + 1)"
  proof (cases "1 \<le> \<bar>x\<bar>")
    case True
    then show ?thesis using expo_up_bounds [of "\<bar>x\<bar>"] by (simp add: expo_def)
  next
    case False
    then show ?thesis using expo_down_bounds [of "\<bar>x\<bar>"] assms by (simp add: expo_def)
  qed
  then show "2 powi (expo x) \<le> \<bar>x\<bar>" and "\<bar>x\<bar> < 2 powi (expo x + 1)" by simp_all
qed

lemma roundTiesToEven_error: "\<bar>of_int (roundTiesToEven y) - y\<bar> \<le> 1 / 2"
proof -
  have "of_int \<lfloor>y\<rfloor> \<le> y" "y < of_int \<lfloor>y\<rfloor> + 1" by linarith+
  then show ?thesis
    unfolding roundTiesToEven_def Let_def by (auto simp: abs_le_iff)
qed

lemma roundTiesToEven_le:
  assumes "y \<le> of_int k"
  shows "roundTiesToEven y \<le> k"
proof -
  have "of_int (roundTiesToEven y) \<le> y + 1 / 2"
    using roundTiesToEven_error [of y] by linarith
  then have "(of_int (roundTiesToEven y) :: real) < of_int k + 1" using assms by linarith
  then have "(of_int (roundTiesToEven y) :: real) < of_int (k + 1)" by simp
  then have "roundTiesToEven y < k + 1" by (simp only: of_int_less_iff)
  then show ?thesis by simp
qed

lemma roundTiesToEven_ge:
  assumes "of_int k \<le> y"
  shows "k \<le> roundTiesToEven y"
proof -
  have "y - 1 / 2 \<le> of_int (roundTiesToEven y)"
    using roundTiesToEven_error [of y] by linarith
  then have "(of_int k :: real) - 1 < of_int (roundTiesToEven y)" using assms by linarith
  then have "(of_int (k - 1) :: real) < of_int (roundTiesToEven y)" by simp
  then have "k - 1 < roundTiesToEven y" by (simp only: of_int_less_iff)
  then show ?thesis by simp
qed

lemma roundTiesToEven_abs_le:
  assumes "\<bar>y\<bar> \<le> of_int k"
  shows "\<bar>roundTiesToEven y\<bar> \<le> k"
proof -
  have "roundTiesToEven y \<le> k" using assms by (intro roundTiesToEven_le) linarith
  moreover have "- k \<le> roundTiesToEven y" using assms by (intro roundTiesToEven_ge) simp
  ultimately show ?thesis by simp
qed

lemma rounded_magnitude:
  assumes "\<bar>x\<bar> \<le> 2 powi (e + 1)"
  shows "\<bar>of_int (roundTiesToEven (x / 2 powi (e - 52))) * 2 powi (e - 52)\<bar> \<le> (2::real) powi (e + 1)"
proof -
  let ?u = "(2::real) powi (e - 52)"
  have u: "0 < ?u" by (simp add: zero_less_power_int)
  have "(2::real) powi (53 + (e - 52)) = 2 powi 53 * ?u"
    by (rule power_int_add) simp
  moreover have "53 + (e - 52) = e + 1" by simp
  ultimately have split: "(2::real) powi (e + 1) = 2 powi 53 * ?u"
    by (simp only:)
  have "\<bar>x / ?u\<bar> \<le> 2 powi 53"
    using assms u unfolding split by (simp add: pos_divide_le_eq)
  also have "(2::real) powi 53 = of_int (2 ^ 53)" by simp
  finally have "\<bar>roundTiesToEven (x / ?u)\<bar> \<le> 2 ^ 53" by (rule roundTiesToEven_abs_le)
  then have "\<bar>(of_int (roundTiesToEven (x / ?u)) :: real)\<bar> \<le> of_int (2 ^ 53)"
    by (simp only: of_int_abs [symmetric] of_int_le_iff)
  then have "\<bar>(of_int (roundTiesToEven (x / ?u)) :: real)\<bar> * ?u \<le> of_int (2 ^ 53) * ?u"
    using u by (intro mult_right_mono) simp_all
  then show ?thesis
    unfolding split using u by (simp add: abs_mult)
qed

lemma binary64_below_overflow:
  assumes "x \<noteq> 0" and "\<bar>x\<bar> < 2 powi 1023"
  shows "binary64 x =
    (let e = max (expo x) (- 1022); u = 2 powi (e - 52)
     in Fin (of_int (roundTiesToEven (x / u)) * u))"
proof -
  define e where "e = max (expo x) (- 1022)"
  define u where "u = (2::real) powi (e - 52)"
  define r where "r = of_int (roundTiesToEven (x / u)) * u"
  note b = expo_bounds [OF assms(1)]
  have "\<not> 1023 \<le> expo x"
  proof
    assume "1023 \<le> expo x"
    then have "(2::real) powi 1023 \<le> 2 powi (expo x)" by (intro power_int_increasing) simp_all
    then show False using b(1) assms(2) by linarith
  qed
  then have e_hi: "e \<le> 1022" unfolding e_def by simp
  have e_lo: "expo x \<le> e" unfolding e_def by simp
  have "(2::real) powi (expo x + 1) \<le> 2 powi (e + 1)"
    using e_lo by (intro power_int_increasing) simp_all
  then have mag: "\<bar>x\<bar> \<le> 2 powi (e + 1)" using b(2) by linarith
  have "\<bar>r\<bar> \<le> 2 powi (e + 1)"
    unfolding r_def u_def by (rule rounded_magnitude [OF mag])
  also have "(2::real) powi (e + 1) < 2 powi 1024"
    using e_hi by (intro power_int_strict_increasing) simp_all
  finally have "\<not> (2::real) powi 1024 \<le> \<bar>r\<bar>" by (simp only: not_le)
  then show ?thesis
    unfolding binary64_def Let_def r_def u_def e_def using assms(1) by (simp only: if_False)
qed

lemma binary64_error:
  assumes "\<bar>x\<bar> < 2 powi 1023"
  shows "\<exists>r. binary64 x = Fin r \<and> \<bar>r - x\<bar> \<le> \<bar>x\<bar> / 2 ^ 53 + 1 / 2 ^ 60"
proof (cases "x = 0")
  case True
  then show ?thesis by (simp add: binary64_def)
next
  case False
  define e where "e = max (expo x) (- 1022)"
  define u where "u = (2::real) powi (e - 52)"
  define r where "r = of_int (roundTiesToEven (x / u)) * u"
  have u: "0 < u" unfolding u_def by (simp add: zero_less_power_int)
  note b = expo_bounds [OF False]
  have fin: "binary64 x = Fin r"
    unfolding binary64_below_overflow [OF False assms] Let_def r_def u_def e_def by (rule refl)
  have "r - x = (of_int (roundTiesToEven (x / u)) - x / u) * u"
    unfolding r_def using u by (simp add: field_simps)
  then have "\<bar>r - x\<bar> = \<bar>of_int (roundTiesToEven (x / u)) - x / u\<bar> * u"
    using u by (simp add: abs_mult)
  also have "\<dots> \<le> 1 / 2 * u"
    using u roundTiesToEven_error [of "x / u"] by (intro mult_right_mono) simp_all
  finally have err: "\<bar>r - x\<bar> \<le> u / 2" by simp
  have "u / 2 \<le> \<bar>x\<bar> / 2 ^ 53 + 1 / 2 ^ 60"
  proof (cases "- 1022 \<le> expo x")
    case True
    then have "e = expo x" unfolding e_def by simp
    then have "u = 2 powi (expo x) / 2 powi 52" unfolding u_def by (simp add: power_int_diff)
    then have "u / 2 = 2 powi (expo x) / 2 ^ 53" by simp
    also have "\<dots> \<le> \<bar>x\<bar> / 2 ^ 53" using b(1) by (simp add: divide_right_mono)
    finally show ?thesis by simp
  next
    case False
    then have "e = - 1022" unfolding e_def by simp
    then have "u = 2 powi (- 1074)" unfolding u_def by simp
    also have "(2::real) powi (- 1074) \<le> 2 powi (- 59)" by (intro power_int_increasing) simp_all
    also have "(2::real) powi (- 59) = 1 / 2 ^ 59" by (simp add: power_int_minus divide_simps)
    finally have "u / 2 \<le> 1 / 2 ^ 60" by simp
    moreover have "0 \<le> \<bar>x\<bar> / 2 ^ 53" by simp
    ultimately show ?thesis by linarith
  qed
  with err fin show ?thesis by auto
qed

lemma small_below_overflow:
  fixes x :: real
  assumes "\<bar>x\<bar> \<le> 10 ^ 15"
  shows "\<bar>x\<bar> < 2 powi 1023"
proof -
  have "(10::real) ^ 15 < 2 ^ 50" by simp
  also have "(2::real) ^ 50 = 2 powi 50" by simp
  also have "(2::real) powi 50 \<le> 2 powi 1023" by (intro power_int_increasing) simp_all
  finally show ?thesis using assms by linarith
qed

text \<open>
  On a numeral \<open>expo\<close> is computed by rewriting, and with it \<open>binary64\<close> and the
  arithmetic operators; below \<open>10 ^ 15\<close> the test for overflow is not needed.
\<close>

lemma expo_up_rec: "2 \<le> x \<Longrightarrow> expo_up x = expo_up (x / 2) + 1"
  by (subst expo_up.simps) simp

lemma expo_up_base: "x < 2 \<Longrightarrow> expo_up x = 0"
  by (subst expo_up.simps) simp

lemma expo_down_rec: "0 < x \<Longrightarrow> x < 1 \<Longrightarrow> expo_down x = expo_down (x * 2) - 1"
  by (subst expo_down.simps) simp

lemma expo_down_base: "1 \<le> x \<Longrightarrow> expo_down x = 0"
  by (subst expo_down.simps) simp

lemma binary64_zero: "binary64 0 = Fin 0"
  by (simp add: binary64_def)

lemma binary64_small:
  assumes "x \<noteq> 0" and "\<bar>x\<bar> \<le> 10 ^ 15"
  shows "binary64 x =
     Fin (of_int (roundTiesToEven (x / 2 powi (max (expo x) (- 1022) - 52)))
          * 2 powi (max (expo x) (- 1022) - 52))"
  using binary64_below_overflow [OF assms(1) small_below_overflow [OF assms(2)]]
  by (simp add: Let_def)

lemmas binary64_eval = binary64_zero binary64_small expo_def expo_up_rec expo_up_base
  expo_down_rec expo_down_base roundTiesToEven_def Let_def

subsection \<open>Rounding to cents\<close>

lemma roundToTwoDecimals_Fin:
  assumes "js_mul (Fin x) (Fin 100) = Fin y"
  shows "roundToTwoDecimals (Fin x) = binary64 (of_int \<lfloor>y + 1 / 2\<rfloor> / 100)"
  using assms by (simp add: roundToTwoDecimals_def)

lemma binary64_within:
  assumes "\<bar>x\<bar> \<le> b" and "b \<le> 10 ^ 12"
  shows "\<exists>r. binary64 x = Fin r \<and> \<bar>r - x\<bar> \<le> b / 2 ^ 53 + 1 / 2 ^ 60"
proof -
  have "(10::real) ^ 12 \<le> 10 ^ 15" by simp
  then have "\<bar>x\<bar> \<le> 10 ^ 15" using assms by linarith
  from binary64_error [OF small_below_overflow [OF this]]
  obtain r where r: "binary64 x = Fin r" "\<bar>r - x\<bar> \<le> \<bar>x\<bar> / 2 ^ 53 + 1 / 2 ^ 60" by blast
  have "\<bar>x\<bar> / 2 ^ 53 \<le> b / 2 ^ 53" using assms(1) by (simp add: divide_right_mono)
  then have "\<bar>r - x\<bar> \<le> b / 2 ^ 53 + 1 / 2 ^ 60" using r(2) by linarith
  with r(1) show ?thesis by blast
qed

text \<open>
  For an amount of at most \<open>10 ^ 9\<close> in magnitude the product with \<open>100\<close>, the rounding
  to an integer and the quotient by \<open>100\<close> are finite, and the result is within half a
  cent of the amount, up to the error of the two binary roundings.
\<close>

lemma roundToTwoDecimals_error:
  assumes "\<bar>x\<bar> \<le> 10 ^ 9"
  shows "\<exists>y r. js_mul (Fin x) (Fin 100) = Fin y \<and> \<bar>y - x * 100\<bar> \<le> 1 / 80000
    \<and> roundToTwoDecimals (Fin x) = Fin r \<and> \<bar>r - x\<bar> \<le> 1 / 200 + 1 / 10 ^ 6"
proof -
  have "\<bar>x * 100\<bar> \<le> 10 ^ 11" using assms by (simp add: abs_mult)
  from binary64_within [OF this]
  obtain y where y: "binary64 (x * 100) = Fin y" "\<bar>y - x * 100\<bar> \<le> 10 ^ 11 / 2 ^ 53 + 1 / 2 ^ 60"
    by auto
  have y_err: "\<bar>y - x * 100\<bar> \<le> 1 / 80000" using y(2) by simp
  have y_lo: "x * 100 - 1 / 80000 \<le> y" and y_hi: "y \<le> x * 100 + 1 / 80000"
    using y_err by linarith+
  have x_lo: "- 1000000000 \<le> x" and x_hi: "x \<le> 1000000000"
    using assms by simp_all
  define n where "n = \<lfloor>y + 1 / 2\<rfloor>"
  have n_lo: "y - 1 / 2 \<le> of_int n" and n_hi: "of_int n \<le> y + 1 / 2"
    unfolding n_def by linarith+
  have "\<bar>of_int n :: real\<bar> \<le> 200000000000"
    using y_lo y_hi x_lo x_hi n_lo n_hi by linarith
  then have "\<bar>of_int n / 100 :: real\<bar> \<le> 2 * 10 ^ 9" by simp
  from binary64_within [OF this]
  obtain r where r: "binary64 (of_int n / 100) = Fin r"
    "\<bar>r - of_int n / 100\<bar> \<le> 2 * 10 ^ 9 / 2 ^ 53 + 1 / 2 ^ 60" by auto
  have "\<bar>r - of_int n / 100\<bar> \<le> 1 / 4000000" using r(2) by simp
  then have r_lo: "of_int n / 100 - 1 / 4000000 \<le> r" and r_hi: "r \<le> of_int n / 100 + 1 / 4000000"
    by linarith+
  have mul: "js_mul (Fin x) (Fin 100) = Fin y" using y(1) by simp
  have res: "roundToTwoDecimals (Fin x) = Fin r"
    unfolding roundToTwoDecimals_Fin [OF mul] n_def [symmetric] by (rule r(1))
  have "\<bar>r - x\<bar> \<le> 1 / 200 + 1 / 1000000"
    using y_lo y_hi n_lo n_hi r_lo r_hi by linarith
  then have "\<bar>r - x\<bar> \<le> 1 / 200 + 1 / 10 ^ 6" by simp
  with mul y_err res show ?thesis by blast
qed

lemma floor_half_cases:
  fixes y :: real
  shows "(frac y < 1 / 2 \<longrightarrow> \<lfloor>y + 1 / 2\<rfloor> = \<lfloor>y\<rfloor> \<and> \<lfloor>- y + 1 / 2\<rfloor> = - \<lfloor>y\<rfloor>)
       \<and> (frac y = 1 / 2 \<longrightarrow> \<lfloor>y + 1 / 2\<rfloor> = \<lfloor>y\<rfloor> + 1 \<and> \<lfloor>- y + 1 / 2\<rfloor> = - \<lfloor>y\<rfloor>)
       \<and> (frac y > 1 / 2 \<longrightarrow> \<lfloor>y + 1 / 2\<rfloor> = \<lfloor>y\<rfloor> + 1 \<and> \<lfloor>- y + 1 / 2\<rfloor> = - \<lfloor>y\<rfloor> - 1)"
proof -
  have b: "of_int \<lfloor>y\<rfloor> \<le> y" "y < of_int \<lfloor>y\<rfloor> + 1" by linarith+
  have 1: "\<lfloor>y + 1 / 2\<rfloor> = \<lfloor>y\<rfloor>" if "y - of_int \<lfloor>y\<rfloor> < 1 / 2"
    using b that by (intro floor_unique; linarith)
  have 2: "\<lfloor>- y + 1 / 2\<rfloor> = - \<lfloor>y\<rfloor>" if "y - of_int \<lfloor>y\<rfloor> \<le> 1 / 2"
    using b that
    by (intro floor_unique; (simp only: of_int_add of_int_diff of_int_minus of_int_1)?; linarith)
  have 3: "\<lfloor>y + 1 / 2\<rfloor> = \<lfloor>y\<rfloor> + 1" if "y - of_int \<lfloor>y\<rfloor> \<ge> 1 / 2"
    using b that
    by (intro floor_unique; (simp only: of_int_add of_int_diff of_int_minus of_int_1)?; linarith)
  have 4: "\<lfloor>- y + 1 / 2\<rfloor> = - \<lfloor>y\<rfloor> - 1" if "y - of_int \<lfloor>y\<rfloor> > 1 / 2"
    using b that
    by (intro floor_unique; (simp only: of_int_add of_int_diff of_int_minus of_int_1)?; linarith)
  show ?thesis
    unfolding frac_def using 1 2 3 4 by simp
qed

lemma floor_half_neg:
  fixes y :: real
  assumes "frac y \<noteq> 1 / 2"
  shows "\<lfloor>y + 1 / 2\<rfloor> = - \<lfloor>- y + 1 / 2\<rfloor>"
  using assms floor_half_cases [of y] by (cases "frac y < 1 / 2") auto

lemma floor_half_tie:
  fixes y :: real
  assumes "frac y = 1 / 2"
  shows "\<lfloor>y + 1 / 2\<rfloor> = - \<lfloor>- y + 1 / 2\<rfloor> + 1"
  using assms floor_half_cases [of y] by auto

text \<open>
  \<open>Math.round\<close> against round-half-away-from-zero: they agree except at a tie below
  zero, where \<open>Math.round\<close> gives the integer above.
\<close>

lemma math_round_half_away:
  "(0 \<le> y \<or> frac y \<noteq> 1 / 2 \<longrightarrow> of_int \<lfloor>y + 1 / 2\<rfloor> = roundHalfAwayFromZero y)
   \<and> (y < 0 \<and> frac y = 1 / 2 \<longrightarrow> of_int \<lfloor>y + 1 / 2\<rfloor> = roundHalfAwayFromZero y + 1)"
proof (intro conjI impI)
  assume h: "0 \<le> y \<or> frac y \<noteq> 1 / 2"
  show "of_int \<lfloor>y + 1 / 2\<rfloor> = roundHalfAwayFromZero y"
  proof (cases "y < 0")
    case True
    then have "frac y \<noteq> 1 / 2" using h by auto
    then have "\<lfloor>y + 1 / 2\<rfloor> = - \<lfloor>- y + 1 / 2\<rfloor>" by (rule floor_half_neg)
    with True show ?thesis by (simp add: roundHalfAwayFromZero_def)
  next
    case False
    then show ?thesis by (simp add: roundHalfAwayFromZero_def)
  qed
next
  assume h: "y < 0 \<and> frac y = 1 / 2"
  then have "\<lfloor>y + 1 / 2\<rfloor> = - \<lfloor>- y + 1 / 2\<rfloor> + 1" by (intro floor_half_tie) simp
  with h show "of_int \<lfloor>y + 1 / 2\<rfloor> = roundHalfAwayFromZero y + 1"
    by (simp add: roundHalfAwayFromZero_def)
qed

text \<open>
  Claim C7, as amended. \<open>roundToTwoDecimals\<close> is \<open>Math.round(value * 100) / 100\<close> on
  doubles. For a finite \<open>x\<close> whose product with \<open>100\<close> is the double \<open>y\<close>, the result is
  the double nearest to \<open>\<lfloor>y + 1/2\<rfloor> / 100\<close>: \<open>y\<close> is rounded to the nearest integer with a
  tie resolved towards \<open>+Infinity\<close> (the rule of \<open>Math.round\<close>), and the quotient by
  \<open>100\<close> is rounded to a double. The integer is the one of round-half-away-from-zero
  applied to \<open>y\<close> whenever \<open>y \<ge> 0\<close> or \<open>y\<close> is not a tie; at a tie below zero it is the
  integer above, so that the result is rounded towards zero. For every \<open>x\<close> of at most
  \<open>10 ^ 9\<close> in magnitude the product and the result are finite, \<open>y\<close> is within
  \<open>1 / 80000\<close> of \<open>x * 100\<close>, and the result is within half a cent plus \<open>10 ^ -6\<close> of
  \<open>x\<close>. \<open>NaN\<close> and the infinities are returned unchanged.
\<close>

theorem roundToTwoDecimals_half_up:
  "(js_mul (Fin x) (Fin 100) = Fin y \<longrightarrow>
      roundToTwoDecimals (Fin x) = binary64 (of_int \<lfloor>y + 1 / 2\<rfloor> / 100)
      \<and> (0 \<le> y \<or> frac y \<noteq> 1 / 2 \<longrightarrow>
           roundToTwoDecimals (Fin x) = binary64 (roundHalfAwayFromZero y / 100))
      \<and> (y < 0 \<and> frac y = 1 / 2 \<longrightarrow>
           roundToTwoDecimals (Fin x) = binary64 ((roundHalfAwayFromZero y + 1) / 100)))
   \<and> (\<bar>x\<bar> \<le> 10 ^ 9 \<longrightarrow>
        (\<exists>y r. js_mul (Fin x) (Fin 100) = Fin y \<and> \<bar>y - x * 100\<bar> \<le> 1 / 80000
           \<and> roundToTwoDecimals (Fin x) = Fin r \<and> \<bar>r - x\<bar> \<le> 1 / 200 + 1 / 10 ^ 6))
   \<and> roundToTwoDecimals NaN = NaN
   \<and> roundToTwoDecimals PosInf = PosInf
   \<and> roundToTwoDecimals NegInf = NegInf"
proof -
  have r: "roundToTwoDecimals (Fin x) = binary64 (of_int \<lfloor>y + 1 / 2\<rfloor> / 100)"
    if "js_mul (Fin x) (Fin 100) = Fin y"
    using that by (rule roundToTwoDecimals_Fin)
  have same: "roundToTwoDecimals (Fin x) = binary64 (roundHalfAwayFromZero y / 100)"
    if mul: "js_mul (Fin x) (Fin 100) = Fin y" and h: "0 \<le> y \<or> frac y \<noteq> 1 / 2"
  proof -
    have "of_int \<lfloor>y + 1 / 2\<rfloor> = roundHalfAwayFromZero y"
      using h math_round_half_away [of y] by blast
    then show ?thesis unfolding r [OF mul] by (simp only:)
  qed
  have above: "roundToTwoDecimals (Fin x) = binary64 ((roundHalfAwayFromZero y + 1) / 100)"
    if mul: "js_mul (Fin x) (Fin 100) = Fin y" and h: "y < 0 \<and> frac y = 1 / 2"
  proof -
    have "of_int \<lfloor>y + 1 / 2\<rfloor> = roundHalfAwayFromZero y + 1"
      using h math_round_half_away [of y] by blast
    then show ?thesis unfolding r [OF mul] by (simp only:)
  qed
  have close: "\<exists>y r. js_mul (Fin x) (Fin 100) = Fin y \<and> \<bar>y - x * 100\<bar> \<le> 1 / 80000
           \<and> roundToTwoDecimals (Fin x) = Fin r \<and> \<bar>r - x\<bar> \<le> 1 / 200 + 1 / 10 ^ 6"
    if "\<bar>x\<bar> \<le> 10 ^ 9"
    using that by (rule roundToTwoDecimals_error)
  have special: "roundToTwoDecimals NaN = NaN" "roundToTwoDecimals PosInf = PosInf"
    "roundToTwoDecimals NegInf = NegInf"
    by (simp_all add: roundToTwoDecimals_def signed_inf_def)
  show ?thesis using r same above close special by blast
qed

text \<open>
  The theorem at \<open>x = 0.125\<close>, whose product with \<open>100\<close> is the tie \<open>12.5\<close>, where both
  rules give \<open>13\<close> and the result is \<open>0.13\<close>, and at \<open>x = -0.125\<close> with the tie \<open>-12.5\<close>,
  where \<open>Math.round\<close> gives \<open>-12\<close> and the result is \<open>-0.12\<close>. Both inputs and both
  products are doubles.
\<close>

theorem roundToTwoDecimals_half_up_witness:
  "js_mul (Fin (1 / 8)) (Fin 100) = Fin (25 / 2)
   \<and> roundToTwoDecimals (Fin (1 / 8)) = binary64 (13 / 100)
   \<and> roundHalfAwayFromZero (25 / 2) = 13
   \<and> js_mul (Fin (- 1 / 8)) (Fin 100) = Fin (- 25 / 2)
   \<and> - 25 / 2 < (0::real) \<and> frac (- 25 / 2 :: real) = 1 / 2
   \<and> roundHalfAwayFromZero (- 25 / 2) = - 13
   \<and> roundToTwoDecimals (Fin (- 1 / 8)) = binary64 (- 12 / 100)
   \<and> \<bar>1 / 8 :: real\<bar> \<le> 10 ^ 9
   \<and> (\<exists>r. roundToTwoDecimals (Fin (1 / 8)) = Fin r \<and> \<bar>r - 1 / 8\<bar> \<le> 1 / 200 + 1 / 10 ^ 6)"
proof -
  have up: "js_mul (Fin (1 / 8)) (Fin 100) = Fin (25 / 2)"
    by (simp add: binary64_eval)
  have down: "js_mul (Fin (- 1 / 8)) (Fin 100) = Fin (- 25 / 2)"
    by (simp add: binary64_eval)
  have tie: "- 25 / 2 < (0::real) \<and> frac (- 25 / 2 :: real) = 1 / 2"
    by (simp add: frac_def)
  have away: "roundHalfAwayFromZero (25 / 2) = 13" "roundHalfAwayFromZero (- 25 / 2) = - 13"
    by (simp_all add: roundHalfAwayFromZero_def)
  have small: "\<bar>1 / 8 :: real\<bar> \<le> 10 ^ 9" by simp
  note t1 = roundToTwoDecimals_half_up [of "1 / 8" "25 / 2"]
  note t2 = roundToTwoDecimals_half_up [of "- 1 / 8" "- 25 / 2"]
  have 1: "roundToTwoDecimals (Fin (1 / 8)) = binary64 (13 / 100)"
    using t1 up away(1) by simp
  have 2: "roundToTwoDecimals (Fin (- 1 / 8)) = binary64 (- 12 / 100)"
    using t2 down tie away(2) by simp
  have 3: "\<exists>r. roundToTwoDecimals (Fin (1 / 8)) = Fin r \<and> \<bar>r - 1 / 8\<bar> \<le> 1 / 200 + 1 / 10 ^ 6"
    using t1 small by blast
  show ?thesis using up down tie away small 1 2 3 by blast
qed

text \<open>
  Claim C7 as stated fails at its own example. The double \<open>-0.005\<close> times \<open>100\<close> is the
  double \<open>-0.5\<close>, a tie: round-half-away-from-zero takes it to \<open>-1\<close>, that is \<open>-0.01\<close>,
  and \<open>roundToTwoDecimals\<close> takes it to \<open>0\<close>. Likewise \<open>-0.125\<close>, which is exactly half
  a cent below \<open>-0.12\<close>, goes to \<open>-0.12\<close> and not to \<open>-0.13\<close>.
\<close>

theorem roundToTwoDecimals_half_away_counterexample:
  "js_mul (binary64 (- 5 / 1000)) (Fin 100) = Fin (- 1 / 2)
   \<and> roundHalfAwayFromZero (- 1 / 2) = - 1
   \<and> roundCurrency_spec (- 5 / 1000) = - 1 / 100
   \<and> roundToTwoDecimals (binary64 (- 5 / 1000)) = Fin 0
   \<and> roundToTwoDecimals (binary64 (- 5 / 1000)) \<noteq> binary64 (- 1 / 100)
   \<and> roundCurrency_spec (- 1 / 8) = - 13 / 100
   \<and> roundToTwoDecimals (Fin (- 1 / 8)) = binary64 (- 12 / 100)
   \<and> roundToTwoDecimals (Fin (- 1 / 8)) \<noteq> binary64 (- 13 / 100)"
  by (simp add: roundToTwoDecimals_def roundCurrency_spec_def roundHalfAwayFromZero_def binary64_eval)

subsection \<open>Status derivation\<close>

text \<open>
  Claim C4. For every invoice, \<open>updateInvoiceStatus\<close> yields \<open>PARTIALLY_PAID\<close> exactly
  when \<open>0 < outstandingAmount < totalAmount\<close>, \<open>PAID\<close> exactly when
  \<open>outstandingAmount = 0\<close>, \<open>OVERPAID\<close> exactly when \<open>outstandingAmount < 0\<close>, and
  \<open>PENDING\<close> in every other case; in that case \<open>outstandingAmount >= totalAmount\<close>
  holds, provided both amounts are numbers (not \<open>NaN\<close>). It never yields \<open>CANCELLED\<close>.
\<close>

theorem updateInvoiceStatus_derivation:
  "(Invoice.status (updateInvoiceStatus iv) = PARTIALLY_PAID \<longleftrightarrow>
      js_lt (Fin 0) (Invoice.outstandingAmount iv)
      \<and> js_lt (Invoice.outstandingAmount iv) (Invoice.totalAmount iv))
   \<and> (Invoice.status (updateInvoiceStatus iv) = PAID \<longleftrightarrow>
        js_eq (Invoice.outstandingAmount iv) (Fin 0))
   \<and> (Invoice.status (updateInvoiceStatus iv) = OVERPAID \<longleftrightarrow>
        js_lt (Invoice.outstandingAmount iv) (Fin 0))
   \<and> (Invoice.status (updateInvoiceStatus iv) = InvoiceStatus.PENDING \<longleftrightarrow>
        \<not> (js_lt (Fin 0) (Invoice.outstandingAmount iv)
            \<and> js_lt (Invoice.outstandingAmount iv) (Invoice.totalAmount iv))
        \<and> \<not> js_eq (Invoice.outstandingAmount iv) (Fin 0)
        \<and> \<not> js_lt (Invoice.outstandingAmount iv) (Fin 0))
   \<and> (Invoice.status (updateInvoiceStatus iv) = InvoiceStatus.PENDING
        \<and> \<not> isNaN (Invoice.outstandingAmount iv) \<and> \<not> isNaN (Invoice.totalAmount iv) \<longrightarrow>
        js_ge (Invoice.outstandingAmount iv) (Invoice.totalAmount iv))
   \<and> Invoice.status (updateInvoiceStatus iv) \<noteq> CANCELLED"
proof -
  obtain out where out: "Invoice.outstandingAmount iv = out" by simp
  obtain tot where tot: "Invoice.totalAmount iv = tot" by simp
  show ?thesis
    unfolding out tot updateInvoiceStatus_def Let_def js_gt_def js_ge_def js_le_def
    by (cases out; cases tot) auto
qed

text \<open>
  The theorem at the sample invoice with an outstanding amount of \<open>300\<close> (the total),
  \<open>50\<close>, \<open>0\<close> and \<open>-50\<close>.
\<close>

theorem updateInvoiceStatus_derivation_witness:
  "Invoice.status (updateInvoiceStatus invoice300) = InvoiceStatus.PENDING
   \<and> \<not> isNaN (Invoice.outstandingAmount invoice300) \<and> \<not> isNaN (Invoice.totalAmount invoice300)
   \<and> js_ge (Invoice.outstandingAmount invoice300) (Invoice.totalAmount invoice300)
   \<and> Invoice.status (updateInvoiceStatus (invoice300\<lparr>Invoice.outstandingAmount := Fin 50\<rparr>)) = PARTIALLY_PAID
   \<and> Invoice.status (updateInvoiceStatus (invoice300\<lparr>Invoice.outstandingAmount := Fin 0\<rparr>)) = PAID
   \<and> Invoice.status (updateInvoiceStatus (invoice300\<lparr>Invoice.outstandingAmount := Fin (- 50)\<rparr>)) = OVERPAID"
  using updateInvoiceStatus_derivation [of invoice300]
    updateInvoiceStatus_derivation [of "invoice300\<lparr>Invoice.outstandingAmount := Fin 50\<rparr>"]
    updateInvoiceStatus_derivation [of "invoice300\<lparr>Invoice.outstandingAmount := Fin 0\<rparr>"]
    updateInvoiceStatus_derivation [of "invoice300\<lparr>Invoice.outstandingAmount := Fin (- 50)\<rparr>"]
  by (simp add: invoice300_def)

subsection \<open>Payment processing\<close>

lemma cloneInvoice_value: "cloneInvoice iv = iv"
  by (simp add: cloneInvoice_def)

lemma processPayment_try_Inl:
  assumes "processPayment_try env iv a m d st = Inl e"
  shows "processPayment_throws env iv a m d \<and> message e \<noteq> []"
  using assms
  unfolding processPayment_try_def check_def validatePositiveNumber_def
    validatePaymentAmountLimits_def validatePaymentMethod_def validateDate_def
    validateNonEmptyString_def Let_def
  by (auto split: option.splits if_splits prod.splits)

lemma processPayment_try_Inr:
  assumes "processPayment_try env iv a m d st = Inr r"
  shows "\<not> processPayment_throws env iv a m d
    \<and> r = (\<lparr>PaymentResult.success = True,
            PaymentResult.payment =
              \<lparr>Payment.id = fst (generateId env st),
               Payment.invoiceId = Invoice.id iv,
               Payment.paymentMethod = m,
               Payment.amount = a,
               Payment.paymentDate = d,
               Payment.referenceNumber = fst (generatePaymentReference env d (snd (generateId env st))),
               Payment.status = COMPLETED\<rparr>,
            PaymentResult.invoice =
              updateInvoiceStatus (iv\<lparr>Invoice.outstandingAmount :=
                roundToTwoDecimals (js_sub (Invoice.outstandingAmount iv) a)\<rparr>),
            PaymentResult.error = None\<rparr>,
           snd (generatePaymentReference env d (snd (generateId env st))))"
  using assms
  unfolding processPayment_try_def check_def validatePositiveNumber_def
    validatePaymentAmountLimits_def validatePaymentMethod_def validateDate_def
    validateNonEmptyString_def Let_def cloneInvoice_value
  by (auto split: option.splits if_splits prod.splits)

lemma processPayment_failed:
  assumes "processPayment_throws env iv a m d"
  shows "\<exists>e. message e \<noteq> [] \<and> processPayment env iv a m d st =
    (\<lparr>PaymentResult.success = False,
      PaymentResult.payment =
        \<lparr>Payment.id = fst (generateId env st),
         Payment.invoiceId = Invoice.id iv,
         Payment.paymentMethod = m,
         Payment.amount = a,
         Payment.paymentDate = d,
         Payment.referenceNumber = fst (generatePaymentReference env d (snd (generateId env st))),
         Payment.status = FAILED\<rparr>,
      PaymentResult.invoice = iv,
      PaymentResult.error = Some (message e)\<rparr>,
     snd (generatePaymentReference env d (snd (generateId env st))))"
proof (cases "processPayment_try env iv a m d st")
  case (Inl e)
  then have "message e \<noteq> []" using processPayment_try_Inl by blast
  moreover have "processPayment env iv a m d st = (\<lparr>PaymentResult.success = False,
      PaymentResult.payment =
        \<lparr>Payment.id = fst (generateId env st),
         Payment.invoiceId = Invoice.id iv,
         Payment.paymentMethod = m,
         Payment.amount = a,
         Payment.paymentDate = d,
         Payment.referenceNumber = fst (generatePaymentReference env d (snd (generateId env st))),
         Payment.status = FAILED\<rparr>,
      PaymentResult.invoice = iv,
      PaymentResult.error = Some (message e)\<rparr>,
     snd (generatePaymentReference env d (snd (generateId env st))))"
    using Inl by (simp add: processPayment_def Let_def split: prod.splits)
  ultimately show ?thesis by blast
next
  case (Inr r)
  then show ?thesis using processPayment_try_Inr assms by blast
qed

lemma processPayment_succeeded:
  assumes "\<not> processPayment_throws env iv a m d"
  shows "processPayment env iv a m d st =
     (\<lparr>PaymentResult.success = True,
            PaymentResult.payment =
              \<lparr>Payment.id = fst (generateId env st),
               Payment.invoiceId = Invoice.id iv,
               Payment.paymentMethod = m,
               Payment.amount = a,
               Payment.paymentDate = d,
               Payment.referenceNumber = fst (generatePaymentReference env d (snd (generateId env st))),
               Payment.status = COMPLETED\<rparr>,
            PaymentResult.invoice =
              updateInvoiceStatus (iv\<lparr>Invoice.outstandingAmount :=
                roundToTwoDecimals (js_sub (Invoice.outstandingAmount iv) a)\<rparr>),
            PaymentResult.error = None\<rparr>,
           snd (generatePaymentReference env d (snd (generateId env st))))"
proof (cases "processPayment_try env iv a m d st")
  case (Inl e)
  then show ?thesis using processPayment_try_Inl assms by blast
next
  case (Inr r)
  then show ?thesis using processPayment_try_Inr [OF Inr] by (simp add: processPayment_def)
qed

text \<open>
  Claim C2, as amended. For every invoice whose status is not \<open>CANCELLED\<close> and whose
  id still has a character after trimming white space, every finite positive amount
  within the configured limits, every recognised payment method and every valid date,
  \<open>processPayment\<close> returns \<open>success = true\<close> and no error, a payment with status
  \<open>COMPLETED\<close> carrying the amount, and the input invoice with \<open>outstandingAmount\<close>
  replaced by \<open>roundToTwoDecimals (outstandingAmount - amount)\<close> and with the status
  that \<open>updateInvoiceStatus\<close> derives from the new outstanding amount.
\<close>

theorem processPayment_success:
  assumes "Invoice.status iv \<noteq> CANCELLED"
    and "isFinite a" and "js_lt (Fin 0) a"
    and "js_le (minPaymentAmount env) a" and "js_le a (maxPaymentAmount env)"
    and "m \<in> set PaymentMethod_values"
    and "\<not> isNaN (getTime d)"
    and "trim (Invoice.id iv) \<noteq> []"
  shows "PaymentResult.success (fst (processPayment env iv a m d st))
    \<and> PaymentResult.error (fst (processPayment env iv a m d st)) = None
    \<and> Payment.status (PaymentResult.payment (fst (processPayment env iv a m d st))) = COMPLETED
    \<and> Payment.amount (PaymentResult.payment (fst (processPayment env iv a m d st))) = a
    \<and> Invoice.outstandingAmount (PaymentResult.invoice (fst (processPayment env iv a m d st)))
        = roundToTwoDecimals (js_sub (Invoice.outstandingAmount iv) a)
    \<and> PaymentResult.invoice (fst (processPayment env iv a m d st))
        = updateInvoiceStatus
            (iv\<lparr>Invoice.outstandingAmount := roundToTwoDecimals (js_sub (Invoice.outstandingAmount iv) a)\<rparr>)"
proof -
  have "\<not> processPayment_throws env iv a m d"
    using assms by (cases a; cases "minPaymentAmount env"; cases "maxPaymentAmount env")
      (auto simp: js_le_def js_gt_def)
  then show ?thesis
    by (simp add: processPayment_succeeded updateInvoiceStatus_def Let_def)
qed

text \<open>The theorem at the sample invoice and a cash payment of \<open>150\<close>.\<close>

theorem processPayment_success_witness:
  "PaymentResult.success (fst (processPayment defaultEnv invoice300 (Fin 150) ''CASH'' validDate initialState))
   \<and> Payment.status (PaymentResult.payment
        (fst (processPayment defaultEnv invoice300 (Fin 150) ''CASH'' validDate initialState))) = COMPLETED
   \<and> Invoice.outstandingAmount (PaymentResult.invoice
        (fst (processPayment defaultEnv invoice300 (Fin 150) ''CASH'' validDate initialState))) = Fin 150
   \<and> Invoice.status (PaymentResult.invoice
        (fst (processPayment defaultEnv invoice300 (Fin 150) ''CASH'' validDate initialState))) = PARTIALLY_PAID"
  using processPayment_success [of invoice300 "Fin 150" defaultEnv "''CASH''" validDate initialState]
  by (simp add: invoice300_def defaultEnv_def validDate_def PaymentMethod_values_def js_le_def
      trim_def isWhiteSpace_def roundToTwoDecimals_def js_sub_def updateInvoiceStatus_def js_gt_def
      binary64_eval)

text \<open>
  Claim C2 as stated asks only for a non-empty id. The id \<open>" "\<close> is not empty, every
  other condition of the claim holds, and the payment fails:
  \<open>validateNonEmptyString\<close> trims the id before testing its length.
\<close>

theorem processPayment_blank_id_counterexample:
  "Invoice.id (invoice300\<lparr>Invoice.id := '' ''\<rparr>) \<noteq> []
   \<and> Invoice.status (invoice300\<lparr>Invoice.id := '' ''\<rparr>) \<noteq> CANCELLED
   \<and> isFinite (Fin 150) \<and> js_lt (Fin 0) (Fin 150)
   \<and> js_le (minPaymentAmount defaultEnv) (Fin 150) \<and> js_le (Fin 150) (maxPaymentAmount defaultEnv)
   \<and> ''CASH'' \<in> set PaymentMethod_values
   \<and> \<not> isNaN (getTime validDate)
   \<and> \<not> PaymentResult.success
        (fst (processPayment defaultEnv (invoice300\<lparr>Invoice.id := '' ''\<rparr>) (Fin 150) ''CASH'' validDate initialState))
   \<and> PaymentResult.error
        (fst (processPayment defaultEnv (invoice300\<lparr>Invoice.id := '' ''\<rparr>) (Fin 150) ''CASH'' validDate initialState))
       = Some ''Invoice ID cannot be empty''"
  by (simp add: invoice300_def defaultEnv_def validDate_def PaymentMethod_values_def js_le_def js_gt_def
      trim_def isWhiteSpace_def processPayment_def processPayment_try_def check_def
      validatePositiveNumber_def validatePaymentAmountLimits_def validatePaymentMethod_def
      validateDate_def validateNonEmptyString_def generateId_def generatePaymentReference_def
      binary64_eval)

text \<open>
  Claim C3. Whenever a validation of \<open>processPayment\<close> fails (the amount is \<open>NaN\<close>,
  not positive or not finite, or outside the configured limits; the payment method is
  not recognised; the date is invalid; the invoice id is empty, also after trimming) or
  the invoice is \<open>CANCELLED\<close>, the function returns a result, every throw being caught
  inside it: \<open>success = false\<close>, a payment with status \<open>FAILED\<close>, a non-empty error
  message, and the invoice it was given.
\<close>

theorem processPayment_failure:
  assumes "isNaN a \<or> js_le a (Fin 0) \<or> \<not> isFinite a
     \<or> js_lt a (minPaymentAmount env) \<or> js_gt a (maxPaymentAmount env)
     \<or> m \<notin> set PaymentMethod_values
     \<or> isNaN (getTime d)
     \<or> length (trim (Invoice.id iv)) = 0
     \<or> Invoice.status iv = CANCELLED"
  shows "\<not> PaymentResult.success (fst (processPayment env iv a m d st))
    \<and> Payment.status (PaymentResult.payment (fst (processPayment env iv a m d st))) = FAILED
    \<and> (\<exists>msg. PaymentResult.error (fst (processPayment env iv a m d st)) = Some msg \<and> msg \<noteq> [])
    \<and> PaymentResult.invoice (fst (processPayment env iv a m d st)) = iv"
proof -
  obtain e where "message e \<noteq> []" and "processPayment env iv a m d st =
    (\<lparr>PaymentResult.success = False,
      PaymentResult.payment =
        \<lparr>Payment.id = fst (generateId env st),
         Payment.invoiceId = Invoice.id iv,
         Payment.paymentMethod = m,
         Payment.amount = a,
         Payment.paymentDate = d,
         Payment.referenceNumber = fst (generatePaymentReference env d (snd (generateId env st))),
         Payment.status = FAILED\<rparr>,
      PaymentResult.invoice = iv,
      PaymentResult.error = Some (message e)\<rparr>,
     snd (generatePaymentReference env d (snd (generateId env st))))"
    using processPayment_failed [OF assms] by blast
  then show ?thesis by simp
qed

text \<open>The theorem at the sample invoice and a payment of \<open>-50\<close>.\<close>

theorem processPayment_failure_witness:
  "js_le (Fin (- 50)) (Fin 0)
   \<and> \<not> PaymentResult.success
        (fst (processPayment defaultEnv invoice300 (Fin (- 50)) ''CASH'' validDate initialState))
   \<and> PaymentResult.invoice
        (fst (processPayment defaultEnv invoice300 (Fin (- 50)) ''CASH'' validDate initialState)) = invoice300
   \<and> Payment.status (PaymentResult.payment
        (fst (processPayment defaultEnv invoice300 (Fin (- 50)) ''CASH'' validDate initialState))) = FAILED"
  using processPayment_failure [of "Fin (- 50)" defaultEnv "''CASH''" validDate invoice300 initialState]
  by (simp add: js_le_def)

subsection \<open>Cancelled invoices\<close>

text \<open>
  Claim C10. \<open>updateInvoiceStatus\<close> does not read the status of its argument: for a
  \<open>CANCELLED\<close> invoice the result is the one for the same invoice with any other status
  \<open>s\<close>, so the status is derived again from \<open>outstandingAmount\<close> and \<open>totalAmount\<close> and
  is never \<open>CANCELLED\<close>; for instance it is \<open>PENDING\<close> when the outstanding amount equals
  the total (and is positive, the invoice being unpaid) and \<open>PAID\<close> when the outstanding
  amount is \<open>0\<close>. The check inside \<open>processPayment\<close> is what protects a cancelled
  invoice: the payment fails and the invoice is returned as it is, still \<open>CANCELLED\<close>.
\<close>

theorem updateInvoiceStatus_ignores_status:
  assumes "Invoice.status iv = CANCELLED"
  shows "updateInvoiceStatus iv = updateInvoiceStatus (iv\<lparr>Invoice.status := s\<rparr>)
    \<and> Invoice.status (updateInvoiceStatus iv) \<noteq> CANCELLED
    \<and> (js_eq (Invoice.outstandingAmount iv) (Invoice.totalAmount iv)
         \<and> js_lt (Fin 0) (Invoice.outstandingAmount iv) \<longrightarrow>
         Invoice.status (updateInvoiceStatus iv) = InvoiceStatus.PENDING)
    \<and> (js_eq (Invoice.outstandingAmount iv) (Fin 0) \<longrightarrow>
         Invoice.status (updateInvoiceStatus iv) = PAID)
    \<and> \<not> PaymentResult.success (fst (processPayment env iv a m d st))
    \<and> PaymentResult.invoice (fst (processPayment env iv a m d st)) = iv
    \<and> Invoice.status (PaymentResult.invoice (fst (processPayment env iv a m d st))) = CANCELLED"
proof -
  obtain out where out: "Invoice.outstandingAmount iv = out" by simp
  obtain tot where tot: "Invoice.totalAmount iv = tot" by simp
  have 1: "updateInvoiceStatus iv = updateInvoiceStatus (iv\<lparr>Invoice.status := s\<rparr>)"
    by (simp add: updateInvoiceStatus_def Let_def)
  have 2: "Invoice.status (updateInvoiceStatus iv) \<noteq> CANCELLED"
    by (simp add: updateInvoiceStatus_def Let_def)
  have 3: "js_eq out tot \<and> js_lt (Fin 0) out \<longrightarrow>
      Invoice.status (updateInvoiceStatus iv) = InvoiceStatus.PENDING"
    unfolding updateInvoiceStatus_def Let_def js_gt_def out tot
    by (cases out; cases tot) auto
  have 4: "js_eq out (Fin 0) \<longrightarrow> Invoice.status (updateInvoiceStatus iv) = PAID"
    unfolding updateInvoiceStatus_def Let_def js_gt_def out tot
    by (cases out) auto
  have "processPayment_throws env iv a m d" using assms by simp
  from processPayment_failed [OF this, of st]
  have 5: "\<not> PaymentResult.success (fst (processPayment env iv a m d st))
    \<and> PaymentResult.invoice (fst (processPayment env iv a m d st)) = iv"
    by auto
  show ?thesis using 1 2 3 4 5 assms unfolding out tot by simp
qed

text \<open>
  The theorem at the sample invoice once cancelled: its outstanding amount equals its
  total, so \<open>updateInvoiceStatus\<close> makes it \<open>PENDING\<close>, while \<open>processPayment\<close>
  returns it as it is.
\<close>

theorem updateInvoiceStatus_ignores_status_witness:
  "Invoice.status (invoice300\<lparr>Invoice.status := CANCELLED\<rparr>) = CANCELLED
   \<and> Invoice.status (updateInvoiceStatus (invoice300\<lparr>Invoice.status := CANCELLED\<rparr>)) = InvoiceStatus.PENDING
   \<and> updateInvoiceStatus (invoice300\<lparr>Invoice.status := CANCELLED\<rparr>)
       = updateInvoiceStatus (invoice300\<lparr>Invoice.status := CANCELLED, Invoice.status := PAID\<rparr>)
   \<and> PaymentResult.invoice (fst (processPayment defaultEnv (invoice300\<lparr>Invoice.status := CANCELLED\<rparr>)
        (Fin 150) ''CASH'' validDate initialState)) = invoice300\<lparr>Invoice.status := CANCELLED\<rparr>"
proof -
  have c: "Invoice.status (invoice300\<lparr>Invoice.status := CANCELLED\<rparr>) = CANCELLED"
    by simp
  have e: "js_eq (Invoice.outstandingAmount (invoice300\<lparr>Invoice.status := CANCELLED\<rparr>))
             (Invoice.totalAmount (invoice300\<lparr>Invoice.status := CANCELLED\<rparr>))
           \<and> js_lt (Fin 0) (Invoice.outstandingAmount (invoice300\<lparr>Invoice.status := CANCELLED\<rparr>))"
    by (simp add: invoice300_def)
  show ?thesis
    using c e updateInvoiceStatus_ignores_status
      [OF c, of PAID defaultEnv "Fin 150" "''CASH''" validDate initialState]
    by blast
qed

subsection \<open>Allocation of a payment to the items\<close>

text \<open>
  In the partial branch the callback of \<open>map\<close> treats the last index apart, so the
  result is the proportional allocation of all items but the last, followed by the
  remainder.
\<close>

lemma map_index_last:
  assumes "xs \<noteq> []"
  shows "map (\<lambda>(i, x). if i = length xs - 1 then g i x else f x) (zip [0 ..< length xs] xs)
         = map f (butlast xs) @ [g (length xs - 1) (last xs)]"
proof (rule nth_equalityI)
  show "length (map (\<lambda>(i, x). if i = length xs - 1 then g i x else f x) (zip [0 ..< length xs] xs))
        = length (map f (butlast xs) @ [g (length xs - 1) (last xs)])"
    using assms by simp
next
  fix i
  assume "i < length (map (\<lambda>(i, x). if i = length xs - 1 then g i x else f x) (zip [0 ..< length xs] xs))"
  then have i: "i < length xs" by simp
  show "map (\<lambda>(i, x). if i = length xs - 1 then g i x else f x) (zip [0 ..< length xs] xs) ! i
        = (map f (butlast xs) @ [g (length xs - 1) (last xs)]) ! i"
  proof (cases "i = length xs - 1")
    case True
    then show ?thesis using i assms by (simp add: nth_append last_conv_nth)
  next
    case False
    then have "i < length xs - 1" using i by simp
    then show ?thesis using i by (simp add: nth_append nth_butlast)
  qed
qed

lemma allocatePaymentToItems_full:
  assumes "js_ge a (Invoice.totalAmount iv)"
  shows "allocatePaymentToItems a iv =
    map (\<lambda>item. \<lparr>ReceiptItem.description = InvoiceItem.description item,
                  ReceiptItem.amountAllocated = InvoiceItem.lineTotal item\<rparr>) (Invoice.items iv)"
  using assms by (simp add: allocatePaymentToItems_def)

lemma allocatePaymentToItems_partial:
  assumes "\<not> js_ge a (Invoice.totalAmount iv)" and "Invoice.items iv \<noteq> []"
  shows "allocatePaymentToItems a iv =
    map (\<lambda>item. \<lparr>ReceiptItem.description = InvoiceItem.description item,
                  ReceiptItem.amountAllocated =
                    roundToTwoDecimals (js_mul (InvoiceItem.lineTotal item)
                      (js_div a (Invoice.totalAmount iv)))\<rparr>) (butlast (Invoice.items iv))
    @ [\<lparr>ReceiptItem.description = InvoiceItem.description (last (Invoice.items iv)),
        ReceiptItem.amountAllocated =
          roundToTwoDecimals (js_sub a
            (foldl (\<lambda>sum prevItem. js_add sum (roundToTwoDecimals
                      (js_mul (InvoiceItem.lineTotal prevItem) (js_div a (Invoice.totalAmount iv)))))
               (Fin 0) (butlast (Invoice.items iv))))\<rparr>]"
proof -
  have "allocatePaymentToItems a iv =
    map (\<lambda>(index, item). if index = length (Invoice.items iv) - 1
        then \<lparr>ReceiptItem.description = InvoiceItem.description item,
              ReceiptItem.amountAllocated = roundToTwoDecimals (js_sub a
                (foldl (\<lambda>sum prevItem. js_add sum (roundToTwoDecimals
                      (js_mul (InvoiceItem.lineTotal prevItem) (js_div a (Invoice.totalAmount iv)))))
                   (Fin 0) (take index (Invoice.items iv))))\<rparr>
        else \<lparr>ReceiptItem.description = InvoiceItem.description item,
              ReceiptItem.amountAllocated =
                roundToTwoDecimals (js_mul (InvoiceItem.lineTotal item)
                  (js_div a (Invoice.totalAmount iv)))\<rparr>)
      (zip [0 ..< length (Invoice.items iv)] (Invoice.items iv))"
    using assms(1) unfolding allocatePaymentToItems_def Let_def
    by (auto intro!: map_cong)
  also have "\<dots> = map (\<lambda>item. \<lparr>ReceiptItem.description = InvoiceItem.description item,
                  ReceiptItem.amountAllocated =
                    roundToTwoDecimals (js_mul (InvoiceItem.lineTotal item)
                      (js_div a (Invoice.totalAmount iv)))\<rparr>) (butlast (Invoice.items iv))
    @ [\<lparr>ReceiptItem.description = InvoiceItem.description (last (Invoice.items iv)),
        ReceiptItem.amountAllocated =
          roundToTwoDecimals (js_sub a
            (foldl (\<lambda>sum prevItem. js_add sum (roundToTwoDecimals
                      (js_mul (InvoiceItem.lineTotal prevItem) (js_div a (Invoice.totalAmount iv)))))
               (Fin 0) (take (length (Invoice.items iv) - 1) (Invoice.items iv))))\<rparr>]"
    by (rule map_index_last [OF assms(2)])
  finally show ?thesis by (simp add: butlast_conv_take)
qed

text \<open>A receipt carries the allocation of the payment's amount, whatever else it holds.\<close>

lemma generateReceipt_items:
  assumes "generateReceipt env pay iv st = (Inr receipt, st1)"
  shows "Receipt.items receipt = allocatePaymentToItems (Payment.amount pay) iv
    \<and> Receipt.totalPaid receipt = Payment.amount pay
    \<and> Receipt.remainingBalance receipt = Invoice.outstandingAmount iv"
  using assms unfolding generateReceipt_def check_def Let_def
  by (auto split: option.splits sum.splits prod.splits if_splits)

lemma totalAllocated_snoc:
  "totalAllocated (ris @ [ri]) = js_add (totalAllocated ris) (ReceiptItem.amountAllocated ri)"
  by (simp add: totalAllocated_def)

lemma totalAllocated_map:
  "totalAllocated (map (\<lambda>item. \<lparr>ReceiptItem.description = d item, ReceiptItem.amountAllocated = v item\<rparr>) xs)
   = foldl (\<lambda>sum item. js_add sum (v item)) (Fin 0) xs"
  by (simp add: totalAllocated_def foldl_map)

text \<open>
  The remainder given to the last item brings the total back to the amount: with
  allocations \<open>P\<close> before the last and an amount \<open>A\<close>, both of at most \<open>10 ^ 8\<close> in
  magnitude, the last allocation is \<open>A - P\<close> rounded to cents and the total is within
  half a cent of \<open>A\<close>, up to the error of the binary roundings.
\<close>

lemma remainder_restores_amount:
  assumes "\<bar>A\<bar> \<le> 10 ^ 8" and "\<bar>P\<bar> \<le> 10 ^ 8"
  shows "\<exists>S. js_add (Fin P) (roundToTwoDecimals (js_sub (Fin A) (Fin P))) = Fin S
    \<and> \<bar>S - A\<bar> \<le> 1 / 200 + 1 / 500000"
proof -
  have A: "- 100000000 \<le> A" "A \<le> 100000000" and P: "- 100000000 \<le> P" "P \<le> 100000000"
    using assms by simp_all
  have "\<bar>A - P\<bar> \<le> 2 * 10 ^ 8" using A P by simp
  from binary64_within [OF this]
  obtain d where d: "binary64 (A - P) = Fin d"
    "\<bar>d - (A - P)\<bar> \<le> 2 * 10 ^ 8 / 2 ^ 53 + 1 / 2 ^ 60" by auto
  have sub: "js_sub (Fin A) (Fin P) = Fin d" using d(1) by (simp add: js_sub_def)
  have "\<bar>d - (A - P)\<bar> \<le> 1 / 10000000" using d(2) by simp
  then have d_lo: "A - P - 1 / 10000000 \<le> d" and d_hi: "d \<le> A - P + 1 / 10000000"
    by linarith+
  have "\<bar>d\<bar> \<le> 10 ^ 9" using d_lo d_hi A P by simp
  from roundToTwoDecimals_error [OF this]
  obtain L where L: "roundToTwoDecimals (Fin d) = Fin L" "\<bar>L - d\<bar> \<le> 1 / 200 + 1 / 10 ^ 6"
    by blast
  have "\<bar>L - d\<bar> \<le> 1 / 200 + 1 / 1000000" using L(2) by simp
  then have L_lo: "d - 1 / 200 - 1 / 1000000 \<le> L" and L_hi: "L \<le> d + 1 / 200 + 1 / 1000000"
    by linarith+
  have "\<bar>P + L\<bar> \<le> 4 * 10 ^ 8" using d_lo d_hi L_lo L_hi A P by simp
  from binary64_within [OF this]
  obtain S where S: "binary64 (P + L) = Fin S"
    "\<bar>S - (P + L)\<bar> \<le> 4 * 10 ^ 8 / 2 ^ 53 + 1 / 2 ^ 60" by auto
  have "\<bar>S - (P + L)\<bar> \<le> 1 / 10000000" using S(2) by simp
  then have S_lo: "P + L - 1 / 10000000 \<le> S" and S_hi: "S \<le> P + L + 1 / 10000000"
    by linarith+
  have "js_add (Fin P) (roundToTwoDecimals (js_sub (Fin A) (Fin P))) = Fin S"
    unfolding sub L(1) using S(1) by simp
  moreover have "\<bar>S - A\<bar> \<le> 1 / 200 + 1 / 500000"
    using d_lo d_hi L_lo L_hi S_lo S_hi by linarith
  ultimately show ?thesis by blast
qed

text \<open>
  Claim C1, as amended. For every invoice with a non-empty item list and every payment
  amount strictly between \<open>0\<close> and the total, the receipt items carry the descriptions
  of the invoice items in their order; every item except the last is allocated
  \<open>roundToTwoDecimals (lineTotal * (amount / totalAmount))\<close>, the ratio being computed
  first; the last item is allocated \<open>roundToTwoDecimals (amount - sum of the previous
  allocations)\<close>; the allocations add up to the sum of the previous ones plus the last
  one; and when the amount and the sum of the previous allocations are finite and of
  at most \<open>10 ^ 8\<close> in magnitude, the allocations add up to a finite total within half
  a cent plus \<open>2 * 10 ^ -6\<close> of the amount.
\<close>

theorem allocatePaymentToItems_partial_payment:
  assumes "Invoice.items iv \<noteq> []"
    and "js_lt (Fin 0) a" and "js_lt a (Invoice.totalAmount iv)"
  shows "map ReceiptItem.description (allocatePaymentToItems a iv)
           = map InvoiceItem.description (Invoice.items iv)
    \<and> (\<forall>i. i < length (Invoice.items iv) - 1 \<longrightarrow>
          ReceiptItem.amountAllocated (allocatePaymentToItems a iv ! i)
            = roundToTwoDecimals
                (js_mul (InvoiceItem.lineTotal (Invoice.items iv ! i)) (js_div a (Invoice.totalAmount iv))))
    \<and> ReceiptItem.amountAllocated (last (allocatePaymentToItems a iv))
          = roundToTwoDecimals (js_sub a (totalAllocated (butlast (allocatePaymentToItems a iv))))
    \<and> totalAllocated (allocatePaymentToItems a iv)
          = js_add (totalAllocated (butlast (allocatePaymentToItems a iv)))
              (ReceiptItem.amountAllocated (last (allocatePaymentToItems a iv)))
    \<and> (a = Fin A \<and> \<bar>A\<bar> \<le> 10 ^ 8
         \<and> totalAllocated (butlast (allocatePaymentToItems a iv)) = Fin P \<and> \<bar>P\<bar> \<le> 10 ^ 8 \<longrightarrow>
         (\<exists>S. totalAllocated (allocatePaymentToItems a iv) = Fin S
            \<and> \<bar>S - A\<bar> \<le> 1 / 200 + 1 / 500000))"
proof -
  let ?ratio = "js_div a (Invoice.totalAmount iv)"
  let ?f = "\<lambda>item. \<lparr>ReceiptItem.description = InvoiceItem.description item,
                  ReceiptItem.amountAllocated =
                    roundToTwoDecimals (js_mul (InvoiceItem.lineTotal item) ?ratio)\<rparr>"
  let ?prev = "foldl (\<lambda>sum prevItem. js_add sum (roundToTwoDecimals
                      (js_mul (InvoiceItem.lineTotal prevItem) ?ratio)))
               (Fin 0) (butlast (Invoice.items iv))"
  let ?lastItem = "\<lparr>ReceiptItem.description = InvoiceItem.description (last (Invoice.items iv)),
        ReceiptItem.amountAllocated = roundToTwoDecimals (js_sub a ?prev)\<rparr>"
  have partial: "\<not> js_ge a (Invoice.totalAmount iv)"
    using assms(3) by (cases a; cases "Invoice.totalAmount iv") (auto simp: js_ge_def js_le_def)
  have shape: "allocatePaymentToItems a iv = map ?f (butlast (Invoice.items iv)) @ [?lastItem]"
    by (rule allocatePaymentToItems_partial [OF partial assms(1)])
  have prevTotal: "totalAllocated (map ?f (butlast (Invoice.items iv))) = ?prev"
    by (rule totalAllocated_map)
  have descr: "map ReceiptItem.description (allocatePaymentToItems a iv)
           = map InvoiceItem.description (Invoice.items iv)"
  proof -
    have "map ReceiptItem.description (allocatePaymentToItems a iv)
        = map InvoiceItem.description (butlast (Invoice.items iv) @ [last (Invoice.items iv)])"
      unfolding shape by (simp add: comp_def)
    then show ?thesis using assms(1) by simp
  qed
  have others: "ReceiptItem.amountAllocated (allocatePaymentToItems a iv ! i)
            = roundToTwoDecimals
                (js_mul (InvoiceItem.lineTotal (Invoice.items iv ! i)) (js_div a (Invoice.totalAmount iv)))"
    if i: "i < length (Invoice.items iv) - 1" for i
  proof -
    have "allocatePaymentToItems a iv ! i = ?f (Invoice.items iv ! i)"
      unfolding shape using i by (simp add: nth_append nth_butlast)
    then show ?thesis by simp
  qed
  have lastAlloc: "ReceiptItem.amountAllocated (last (allocatePaymentToItems a iv))
          = roundToTwoDecimals (js_sub a (totalAllocated (butlast (allocatePaymentToItems a iv))))"
    unfolding shape by (simp add: prevTotal)
  have total: "totalAllocated (allocatePaymentToItems a iv)
          = js_add (totalAllocated (butlast (allocatePaymentToItems a iv)))
              (ReceiptItem.amountAllocated (last (allocatePaymentToItems a iv)))"
    unfolding shape by (simp add: totalAllocated_snoc)
  have bound: "\<exists>S. totalAllocated (allocatePaymentToItems a iv) = Fin S
            \<and> \<bar>S - A\<bar> \<le> 1 / 200 + 1 / 500000"
    if h: "a = Fin A \<and> \<bar>A\<bar> \<le> 10 ^ 8
         \<and> totalAllocated (butlast (allocatePaymentToItems a iv)) = Fin P \<and> \<bar>P\<bar> \<le> 10 ^ 8"
  proof -
    from h have a: "a = Fin A"
      and p: "totalAllocated (butlast (allocatePaymentToItems a iv)) = Fin P"
      by blast+
    have "totalAllocated (allocatePaymentToItems a iv)
        = js_add (Fin P) (roundToTwoDecimals (js_sub a (Fin P)))"
      by (simp only: total lastAlloc p)
    then have "totalAllocated (allocatePaymentToItems a iv)
        = js_add (Fin P) (roundToTwoDecimals (js_sub (Fin A) (Fin P)))"
      unfolding a .
    moreover have "\<exists>S. js_add (Fin P) (roundToTwoDecimals (js_sub (Fin A) (Fin P))) = Fin S
        \<and> \<bar>S - A\<bar> \<le> 1 / 200 + 1 / 500000"
      using h by (intro remainder_restores_amount) simp_all
    ultimately show ?thesis by simp
  qed
  show ?thesis using descr others lastAlloc total bound by blast
qed

text \<open>
  The theorem at the sample invoice and a payment of \<open>150.00\<close>: the allocations are
  \<open>50.00\<close> and \<open>100.00\<close>, \<open>150.00\<close> in all.
\<close>

theorem allocatePaymentToItems_partial_payment_witness:
  "Invoice.items invoice300 \<noteq> []
   \<and> js_lt (Fin 0) (Fin 150) \<and> js_lt (Fin 150) (Invoice.totalAmount invoice300)
   \<and> map ReceiptItem.amountAllocated (allocatePaymentToItems (Fin 150) invoice300) = [Fin 50, Fin 100]
   \<and> \<bar>150 :: real\<bar> \<le> 10 ^ 8
   \<and> totalAllocated (butlast (allocatePaymentToItems (Fin 150) invoice300)) = Fin 50
   \<and> \<bar>50 :: real\<bar> \<le> 10 ^ 8
   \<and> (\<exists>S. totalAllocated (allocatePaymentToItems (Fin 150) invoice300) = Fin S
        \<and> \<bar>S - 150\<bar> \<le> 1 / 200 + 1 / 500000)"
proof -
  have ne: "Invoice.items invoice300 \<noteq> []" by (simp add: invoice300_def)
  have pos: "js_lt (Fin 0) (Fin 150)" by simp
  have below: "js_lt (Fin 150) (Invoice.totalAmount invoice300)" by (simp add: invoice300_def)
  have allocs: "map ReceiptItem.amountAllocated (allocatePaymentToItems (Fin 150) invoice300)
      = [Fin 50, Fin 100]"
    by (simp add: invoice300_def item100_def item200_def allocatePaymentToItems_def js_ge_def js_le_def
         upt_rec roundToTwoDecimals_def js_sub_def binary64_eval)
  have before: "totalAllocated (butlast (allocatePaymentToItems (Fin 150) invoice300)) = Fin 50"
    by (simp add: invoice300_def item100_def item200_def allocatePaymentToItems_def js_ge_def js_le_def
         upt_rec totalAllocated_def roundToTwoDecimals_def js_sub_def binary64_eval)
  have small: "\<bar>150 :: real\<bar> \<le> 10 ^ 8" "\<bar>50 :: real\<bar> \<le> 10 ^ 8" by simp_all
  have "\<exists>S. totalAllocated (allocatePaymentToItems (Fin 150) invoice300) = Fin S
        \<and> \<bar>S - 150\<bar> \<le> 1 / 200 + 1 / 500000"
    using allocatePaymentToItems_partial_payment [OF ne pos below, of 150 50] before small
    by blast
  then show ?thesis using ne pos below allocs before small by blast
qed

text \<open>
  Claim C1 as stated gives every item except the last
  \<open>roundToTwoDecimals (lineTotal * amount / totalAmount)\<close>. For a payment of \<open>39.43\<close> on
  the invoice of \<open>332.43\<close> and \<open>219.59\<close> the first item is allocated \<open>23.74\<close>: the ratio
  \<open>39.43 / 552.02\<close> is rounded to a double before it is multiplied, and the product
  falls below \<open>23.745\<close>, whereas \<open>332.43 * 39.43 / 552.02\<close> computed in the order of the
  claim is the double \<open>23.745\<close>, which is rounded to \<open>23.75\<close>. Nor is the sum always the
  amount exactly: a payment of \<open>0.30\<close> on the sample invoice is allocated \<open>0.1\<close> and
  \<open>0.2\<close>, and \<open>0.1 + 0.2\<close> is not the double \<open>0.3\<close>.
\<close>

theorem allocatePaymentToItems_exactness_counterexample:
  "Invoice.items invoice55202 \<noteq> []
   \<and> js_lt (Fin 0) (binary64 (3943 / 100))
   \<and> js_lt (binary64 (3943 / 100)) (Invoice.totalAmount invoice55202)
   \<and> map ReceiptItem.amountAllocated (allocatePaymentToItems (binary64 (3943 / 100)) invoice55202)
       = [binary64 (2374 / 100), binary64 (1569 / 100)]
   \<and> roundToTwoDecimals
        (js_div (js_mul (InvoiceItem.lineTotal (Invoice.items invoice55202 ! 0)) (binary64 (3943 / 100)))
           (Invoice.totalAmount invoice55202)) = binary64 (2375 / 100)
   \<and> binary64 (2374 / 100) \<noteq> binary64 (2375 / 100)
   \<and> js_lt (Fin 0) (binary64 (3 / 10))
   \<and> js_lt (binary64 (3 / 10)) (Invoice.totalAmount invoice300)
   \<and> map ReceiptItem.amountAllocated (allocatePaymentToItems (binary64 (3 / 10)) invoice300)
       = [binary64 (1 / 10), binary64 (2 / 10)]
   \<and> \<not> js_eq (totalAllocated (allocatePaymentToItems (binary64 (3 / 10)) invoice300))
            (binary64 (3 / 10))"
  by (simp add: invoice55202_def item33243_def item21959_def invoice300_def item100_def item200_def
       allocatePaymentToItems_def js_ge_def js_le_def
       roundToTwoDecimals_def js_sub_def upt_rec totalAllocated_def binary64_eval)

text \<open>
  Claim C9. For every payment amount with \<open>amount >= totalAmount\<close>, every receipt item
  carries the description and exactly the \<open>lineTotal\<close> of its invoice item, in the
  invoice's order, so the allocations add up to the sum of the line totals whatever the
  amount is: when that sum is the invoice total and the amount is larger, the sum of the
  allocations stays below the amount.
\<close>

theorem allocatePaymentToItems_full_payment:
  assumes "js_ge a (Invoice.totalAmount iv)"
  shows "allocatePaymentToItems a iv =
      map (\<lambda>item. \<lparr>ReceiptItem.description = InvoiceItem.description item,
                    ReceiptItem.amountAllocated = InvoiceItem.lineTotal item\<rparr>) (Invoice.items iv)
    \<and> map ReceiptItem.amountAllocated (allocatePaymentToItems a iv)
        = map InvoiceItem.lineTotal (Invoice.items iv)
    \<and> map ReceiptItem.description (allocatePaymentToItems a iv)
        = map InvoiceItem.description (Invoice.items iv)
    \<and> totalAllocated (allocatePaymentToItems a iv)
        = foldl js_add (Fin 0) (map InvoiceItem.lineTotal (Invoice.items iv))
    \<and> (js_gt a (Invoice.totalAmount iv)
         \<and> foldl js_add (Fin 0) (map InvoiceItem.lineTotal (Invoice.items iv)) = Invoice.totalAmount iv
         \<longrightarrow> js_lt (totalAllocated (allocatePaymentToItems a iv)) a)"
proof -
  have full: "allocatePaymentToItems a iv =
      map (\<lambda>item. \<lparr>ReceiptItem.description = InvoiceItem.description item,
                    ReceiptItem.amountAllocated = InvoiceItem.lineTotal item\<rparr>) (Invoice.items iv)"
    by (rule allocatePaymentToItems_full [OF assms])
  have total: "totalAllocated (allocatePaymentToItems a iv)
        = foldl js_add (Fin 0) (map InvoiceItem.lineTotal (Invoice.items iv))"
    unfolding full by (simp add: totalAllocated_def foldl_map)
  show ?thesis using full total by (simp add: comp_def js_gt_def)
qed

text \<open>
  The theorem at the sample invoice and a payment of \<open>350.00\<close>: the allocations are
  \<open>100.00\<close> and \<open>200.00\<close>, \<open>300.00\<close> in all.
\<close>

theorem allocatePaymentToItems_full_payment_witness:
  "js_ge (Fin 350) (Invoice.totalAmount invoice300)
   \<and> js_gt (Fin 350) (Invoice.totalAmount invoice300)
   \<and> map ReceiptItem.amountAllocated (allocatePaymentToItems (Fin 350) invoice300) = [Fin 100, Fin 200]
   \<and> totalAllocated (allocatePaymentToItems (Fin 350) invoice300) = Fin 300
   \<and> js_lt (totalAllocated (allocatePaymentToItems (Fin 350) invoice300)) (Fin 350)"
  using allocatePaymentToItems_full_payment [of "Fin 350" invoice300]
  by (simp add: invoice300_def item100_def item200_def js_ge_def js_le_def js_gt_def totalAllocated_def
       binary64_eval)

subsection \<open>Invoice totals\<close>

lemma processItem_Inr:
  assumes "processItem env rate item st = (Inr it, st1)"
  shows "isFinite (InvoiceItemInput.quantity item) \<and> isFinite (InvoiceItemInput.unitPrice item)
    \<and> InvoiceItem.description it = InvoiceItemInput.description item
    \<and> InvoiceItem.quantity it = InvoiceItemInput.quantity item
    \<and> InvoiceItem.unitPrice it = InvoiceItemInput.unitPrice item
    \<and> InvoiceItem.taxRate it = rate
    \<and> InvoiceItem.taxAmount it
        = roundToTwoDecimals (js_mul
            (roundToTwoDecimals (js_mul (InvoiceItemInput.quantity item) (InvoiceItemInput.unitPrice item)))
            rate)
    \<and> InvoiceItem.lineTotal it
        = roundToTwoDecimals (js_add
            (roundToTwoDecimals (js_mul (InvoiceItemInput.quantity item) (InvoiceItemInput.unitPrice item)))
            (InvoiceItem.taxAmount it))"
  using assms
  unfolding processItem_def check_def validatePositiveNumber_def validateNonNegativeNumber_def
    validateNonEmptyString_def validateLineItemAmount_def calculateTaxAmount_def generateId_def Let_def
  by (auto split: option.splits if_splits sum.splits)






lemma scenario_totals:
  assumes "\<not> js_gt (Fin 500) (maxLineItemAmount env)"
    and "\<not> js_gt (binary64 (58957 / 100)) (maxInvoiceAmount env)"
  shows "fst (calculateInvoiceTotal env [monthlyFee, activityFee] (binary64 (7 / 100)) st)
    = Inr \<lparr>InvoiceTotals.subtotal = Fin 551,
           InvoiceTotals.totalTax = binary64 (3857 / 100),
           InvoiceTotals.totalAmount = binary64 (58957 / 100),
           InvoiceTotals.items =
             [\<lparr>InvoiceItem.id = uuidv4 env (uuidCalls st),
               InvoiceItem.description = ''Monthly Fee'',
               InvoiceItem.quantity = Fin 1,
               InvoiceItem.unitPrice = Fin 500,
               InvoiceItem.lineTotal = Fin 535,
               InvoiceItem.taxRate = binary64 (7 / 100),
               InvoiceItem.taxAmount = Fin 35\<rparr>,
              \<lparr>InvoiceItem.id = uuidv4 env (Suc (uuidCalls st)),
               InvoiceItem.description = ''Activity Fee'',
               InvoiceItem.quantity = Fin 2,
               InvoiceItem.unitPrice = Fin (2550 / 100),
               InvoiceItem.lineTotal = binary64 (5457 / 100),
               InvoiceItem.taxRate = binary64 (7 / 100),
               InvoiceItem.taxAmount = binary64 (357 / 100)\<rparr>]\<rparr>"
proof -
  have rate: "binary64 (7 / 100) = Fin (1261007895663739 / 18014398509481984)"
    by (simp add: binary64_eval)
  have small: "\<not> js_gt (Fin 51) (maxLineItemAmount env)"
    using assms(1) by (cases "maxLineItemAmount env") (auto simp: js_gt_def)
  have 1: "processItem env (Fin (1261007895663739 / 18014398509481984)) monthlyFee st
    = (Inr \<lparr>InvoiceItem.id = uuidv4 env (uuidCalls st),
               InvoiceItem.description = ''Monthly Fee'',
               InvoiceItem.quantity = Fin 1,
               InvoiceItem.unitPrice = Fin 500,
               InvoiceItem.lineTotal = Fin 535,
               InvoiceItem.taxRate = binary64 (7 / 100),
               InvoiceItem.taxAmount = Fin 35\<rparr>, st\<lparr>uuidCalls := Suc (uuidCalls st)\<rparr>)"
    using assms(1)
    by (simp add: processItem_def check_def validatePositiveNumber_def validateNonNegativeNumber_def
        validateNonEmptyString_def validateLineItemAmount_def calculateTaxAmount_def generateId_def
        roundToTwoDecimals_def monthlyFee_def trim_def isWhiteSpace_def js_le_def Let_def
        binary64_eval)
  have 2: "processItem env (Fin (1261007895663739 / 18014398509481984)) activityFee s
    = (Inr \<lparr>InvoiceItem.id = uuidv4 env (uuidCalls s),
               InvoiceItem.description = ''Activity Fee'',
               InvoiceItem.quantity = Fin 2,
               InvoiceItem.unitPrice = Fin (2550 / 100),
               InvoiceItem.lineTotal = binary64 (5457 / 100),
               InvoiceItem.taxRate = binary64 (7 / 100),
               InvoiceItem.taxAmount = binary64 (357 / 100)\<rparr>, s\<lparr>uuidCalls := Suc (uuidCalls s)\<rparr>)" for s
    using small
    by (simp add: processItem_def check_def validatePositiveNumber_def validateNonNegativeNumber_def
        validateNonEmptyString_def validateLineItemAmount_def calculateTaxAmount_def generateId_def
        roundToTwoDecimals_def activityFee_def trim_def isWhiteSpace_def js_le_def Let_def
        binary64_eval)
  show ?thesis
    using assms(2) unfolding rate
    by (simp add: calculateInvoiceTotal_def check_def validateNonEmptyArray_def validateTaxRate_def
        validateNonNegativeNumber_def validateInvoiceAmount_def 1 2 sumWithRounding_def
        roundToTwoDecimals_def js_gt_def Let_def binary64_eval)
qed


text \<open>
  The sum \<open>subtotal + totalTax\<close> itself need not be the double \<open>totalAmount\<close>: for one
  item of \<open>0.2\<close> at a tax rate of \<open>0.5\<close> the subtotal is \<open>0.2\<close>, the total tax \<open>0.1\<close> and
  the total amount \<open>0.3\<close>, and \<open>0.2 + 0.1\<close> is the next double above \<open>0.3\<close>.
\<close>

lemma totals_sum_not_exact:
  "roundToTwoDecimals (js_mul (Fin 1) (binary64 (2 / 10))) = binary64 (2 / 10)
   \<and> roundToTwoDecimals (js_mul (binary64 (2 / 10)) (Fin (1 / 2))) = binary64 (1 / 10)
   \<and> roundToTwoDecimals (js_add (Fin 0) (binary64 (2 / 10))) = binary64 (2 / 10)
   \<and> roundToTwoDecimals (js_add (Fin 0) (binary64 (1 / 10))) = binary64 (1 / 10)
   \<and> roundToTwoDecimals (js_add (binary64 (2 / 10)) (binary64 (1 / 10))) = binary64 (3 / 10)
   \<and> \<not> js_eq (js_add (binary64 (2 / 10)) (binary64 (1 / 10))) (binary64 (3 / 10))"
  by (simp add: roundToTwoDecimals_def binary64_eval)

text \<open>
  Claim C8. For the items Monthly Fee (quantity \<open>1\<close>, unit price \<open>500.00\<close>) and Activity
  Fee (quantity \<open>2\<close>, unit price \<open>25.50\<close>) at tax rate \<open>0.07\<close>, under every
  configuration whose limits admit a line of \<open>500.00\<close> and an invoice of \<open>589.57\<close>,
  \<open>calculateInvoiceTotal\<close> returns subtotal \<open>551.00\<close>, total tax \<open>38.57\<close>, total amount
  \<open>589.57\<close> and the line totals \<open>535.00\<close> and \<open>54.57\<close>, each of them the double that the
  decimal denotes. For every item that \<open>calculateInvoiceTotal\<close> processes, \<open>taxAmount\<close>
  is \<open>roundToTwoDecimals (lineSubtotal * taxRate)\<close> and \<open>lineTotal\<close> is
  \<open>roundToTwoDecimals (lineSubtotal + taxAmount)\<close>, where \<open>lineSubtotal\<close> is
  \<open>roundToTwoDecimals (quantity * unitPrice)\<close>.
\<close>

theorem calculateInvoiceTotal_scenario:
  assumes "\<not> js_gt (Fin 500) (maxLineItemAmount env)"
    and "\<not> js_gt (binary64 (58957 / 100)) (maxInvoiceAmount env)"
  shows "(\<exists>totals. fst (calculateInvoiceTotal env [monthlyFee, activityFee] (binary64 (7 / 100)) st) = Inr totals
      \<and> InvoiceTotals.subtotal totals = Fin 551
      \<and> InvoiceTotals.totalTax totals = binary64 (3857 / 100)
      \<and> InvoiceTotals.totalAmount totals = binary64 (58957 / 100)
      \<and> map InvoiceItem.lineTotal (InvoiceTotals.items totals) = [Fin 535, binary64 (5457 / 100)])
    \<and> (processItem env rate item st0 = (Inr it, st1) \<longrightarrow>
        InvoiceItem.taxAmount it
          = roundToTwoDecimals (js_mul
              (roundToTwoDecimals (js_mul (InvoiceItemInput.quantity item) (InvoiceItemInput.unitPrice item)))
              rate)
        \<and> InvoiceItem.lineTotal it
          = roundToTwoDecimals (js_add
              (roundToTwoDecimals (js_mul (InvoiceItemInput.quantity item) (InvoiceItemInput.unitPrice item)))
              (InvoiceItem.taxAmount it)))"
proof (intro conjI impI)
  show "\<exists>totals. fst (calculateInvoiceTotal env [monthlyFee, activityFee] (binary64 (7 / 100)) st) = Inr totals
      \<and> InvoiceTotals.subtotal totals = Fin 551
      \<and> InvoiceTotals.totalTax totals = binary64 (3857 / 100)
      \<and> InvoiceTotals.totalAmount totals = binary64 (58957 / 100)
      \<and> map InvoiceItem.lineTotal (InvoiceTotals.items totals) = [Fin 535, binary64 (5457 / 100)]"
    by (simp add: scenario_totals [OF assms])
next
  assume "processItem env rate item st0 = (Inr it, st1)"
  from processItem_Inr [OF this]
  show "InvoiceItem.taxAmount it
          = roundToTwoDecimals (js_mul
              (roundToTwoDecimals (js_mul (InvoiceItemInput.quantity item) (InvoiceItemInput.unitPrice item)))
              rate)"
    and "InvoiceItem.lineTotal it
          = roundToTwoDecimals (js_add
              (roundToTwoDecimals (js_mul (InvoiceItemInput.quantity item) (InvoiceItemInput.unitPrice item)))
              (InvoiceItem.taxAmount it))"
    by simp_all
qed

text \<open>
  The theorem under the default configuration, from the state after \<open>resetCounters\<close>.
  The doubles are written out: \<open>38.57\<close> is \<open>5428244925865001 / 2 ^ 47\<close>, \<open>589.57\<close> is
  \<open>5185912563103171 / 2 ^ 43\<close> and \<open>54.57\<close> is \<open>7680044739550249 / 2 ^ 47\<close>.
\<close>

theorem calculateInvoiceTotal_scenario_witness:
  "\<not> js_gt (Fin 500) (maxLineItemAmount defaultEnv)
   \<and> \<not> js_gt (binary64 (58957 / 100)) (maxInvoiceAmount defaultEnv)
   \<and> (\<exists>totals. fst (calculateInvoiceTotal defaultEnv [monthlyFee, activityFee] (binary64 (7 / 100)) initialState)
          = Inr totals
        \<and> InvoiceTotals.subtotal totals = Fin 551
        \<and> InvoiceTotals.totalTax totals = Fin (5428244925865001 / 2 ^ 47)
        \<and> InvoiceTotals.totalAmount totals = Fin (5185912563103171 / 2 ^ 43)
        \<and> map InvoiceItem.lineTotal (InvoiceTotals.items totals) = [Fin 535, Fin (7680044739550249 / 2 ^ 47)])"
proof -
  have l: "\<not> js_gt (Fin 500) (maxLineItemAmount defaultEnv)"
    by (simp add: defaultEnv_def js_gt_def)
  have i: "\<not> js_gt (binary64 (58957 / 100)) (maxInvoiceAmount defaultEnv)"
    by (simp add: defaultEnv_def js_gt_def binary64_eval)
  have v: "binary64 (3857 / 100) = Fin (5428244925865001 / 2 ^ 47)"
    "binary64 (58957 / 100) = Fin (5185912563103171 / 2 ^ 43)"
    "binary64 (5457 / 100) = Fin (7680044739550249 / 2 ^ 47)"
    by (simp_all add: binary64_eval)
  show ?thesis
    using l i calculateInvoiceTotal_scenario [OF l i, of initialState] unfolding v by blast
qed

subsection \<open>Immutability of the input invoice\<close>

text \<open>
  Reading through an old address is not affected by objects that are appended, and
  \<open>copyItems\<close> appends one copy for every item.
\<close>

lemma lookup_Some_less: "lookup h a = Some ob \<Longrightarrow> a < length h"
  by (simp add: lookup_def split: if_splits)

lemma lookup_append_Some: "lookup h a = Some ob \<Longrightarrow> lookup (h @ ext) a = Some ob"
  by (simp add: lookup_def nth_append split: if_splits)

lemma lookup_new: "lookup (h @ ob # ext) (length h) = Some ob"
  by (simp add: lookup_def nth_append)

lemma readItems_append:
  "readItems h refs = Some its \<Longrightarrow> readItems (h @ ext) refs = Some its"
proof (induction refs arbitrary: its)
  case Nil
  then show ?case by simp
next
  case (Cons r rs)
  then show ?case
    by (auto split: option.splits object.splits simp: lookup_append_Some)
qed

lemma upt_shift: "[n ..< n + Suc k] = n # [Suc n ..< Suc n + k]"
  using upt_conv_Cons [of n "n + Suc k"] by (simp del: upt_Suc)

lemma readItems_new:
  "readItems (h @ map ItemObj its @ ext) [length h ..< length h + length its] = Some its"
proof (induction its arbitrary: h)
  case Nil
  then show ?case by simp
next
  case (Cons item its)
  have "readItems ((h @ [ItemObj item]) @ map ItemObj its @ ext)
          [length (h @ [ItemObj item]) ..< length (h @ [ItemObj item]) + length its] = Some its"
    by (rule Cons.IH)
  then have rest: "readItems (h @ ItemObj item # map ItemObj its @ ext)
          [Suc (length h) ..< Suc (length h) + length its] = Some its"
    by (simp del: upt_Suc)
  have "[length h ..< length h + length (item # its)]
        = length h # [Suc (length h) ..< Suc (length h) + length its]"
    using upt_shift [of "length h" "length its"] by (simp del: upt_Suc)
  then show ?case using rest by (simp add: lookup_new del: upt_Suc)
qed

lemma copyItems_spec:
  "readItems h refs = Some its \<Longrightarrow>
   copyItems refs h = Some ([length h ..< length h + length its], h @ map ItemObj its)"
proof (induction refs arbitrary: h its)
  case Nil
  then show ?case by simp
next
  case (Cons r rs)
  from Cons.prems obtain item rest where
    r: "lookup h r = Some (ItemObj item)" and
    rest: "readItems h rs = Some rest" and
    its: "its = item # rest"
    by (auto split: option.splits object.splits)
  have "readItems (h @ [ItemObj item]) rs = Some rest"
    by (rule readItems_append [OF rest])
  from Cons.IH [OF this]
  have "copyItems rs (h @ [ItemObj item])
        = Some ([Suc (length h) ..< Suc (length h) + length rest], h @ ItemObj item # map ItemObj rest)"
    by (simp del: upt_Suc)
  moreover have "[length h ..< length h + length its]
        = length h # [Suc (length h) ..< Suc (length h) + length rest]"
    using upt_shift [of "length h" "length rest"] by (simp add: its del: upt_Suc)
  ultimately show ?case
    by (simp add: r its alloc_def del: upt_Suc)
qed

lemma readInvoice_SomeE:
  assumes "readInvoice h r = Some iv"
  obtains io t refs its where
    "lookup h r = Some (InvoiceObj io)"
    "lookup h (InvoiceObject.invoiceDate io) = Some (DateObj t)"
    "lookup h (InvoiceObject.items io) = Some (ArrayObj refs)"
    "readItems h refs = Some its"
    "iv = \<lparr>Invoice.id = InvoiceObject.id io,
           Invoice.invoiceNumber = InvoiceObject.invoiceNumber io,
           Invoice.invoiceDate = Date t,
           Invoice.items = its,
           Invoice.subtotal = InvoiceObject.subtotal io,
           Invoice.totalAmount = InvoiceObject.totalAmount io,
           Invoice.totalTax = InvoiceObject.totalTax io,
           Invoice.outstandingAmount = InvoiceObject.outstandingAmount io,
           Invoice.status = InvoiceObject.status io\<rparr>"
  using assms unfolding readInvoice_def
  by (auto split: option.splits object.splits)

lemma readInvoice_I:
  assumes "lookup h r = Some (InvoiceObj io)"
    and "lookup h (InvoiceObject.invoiceDate io) = Some (DateObj t)"
    and "lookup h (InvoiceObject.items io) = Some (ArrayObj refs)"
    and "readItems h refs = Some its"
  shows "readInvoice h r =
    Some \<lparr>Invoice.id = InvoiceObject.id io,
           Invoice.invoiceNumber = InvoiceObject.invoiceNumber io,
           Invoice.invoiceDate = Date t,
           Invoice.items = its,
           Invoice.subtotal = InvoiceObject.subtotal io,
           Invoice.totalAmount = InvoiceObject.totalAmount io,
           Invoice.totalTax = InvoiceObject.totalTax io,
           Invoice.outstandingAmount = InvoiceObject.outstandingAmount io,
           Invoice.status = InvoiceObject.status io\<rparr>"
  by (simp add: readInvoice_def assms)

lemma readInvoice_append:
  assumes "readInvoice h r = Some iv"
  shows "readInvoice (h @ ext) r = Some iv"
proof -
  from assms obtain io t refs its where
    1: "lookup h r = Some (InvoiceObj io)" and
    2: "lookup h (InvoiceObject.invoiceDate io) = Some (DateObj t)" and
    3: "lookup h (InvoiceObject.items io) = Some (ArrayObj refs)" and
    4: "readItems h refs = Some its" and
    5: "iv = \<lparr>Invoice.id = InvoiceObject.id io,
           Invoice.invoiceNumber = InvoiceObject.invoiceNumber io,
           Invoice.invoiceDate = Date t,
           Invoice.items = its,
           Invoice.subtotal = InvoiceObject.subtotal io,
           Invoice.totalAmount = InvoiceObject.totalAmount io,
           Invoice.totalTax = InvoiceObject.totalTax io,
           Invoice.outstandingAmount = InvoiceObject.outstandingAmount io,
           Invoice.status = InvoiceObject.status io\<rparr>"
    by (rule readInvoice_SomeE)
  show ?thesis
    unfolding readInvoice_def
    by (simp add: lookup_append_Some [OF 1] lookup_append_Some [OF 2] lookup_append_Some [OF 3]
        readItems_append [OF 4] 5)
qed

lemma cloneInvoice_heap_spec:
  assumes "lookup h r = Some (InvoiceObj io)"
    and "lookup h (InvoiceObject.invoiceDate io) = Some (DateObj t)"
    and "lookup h (InvoiceObject.items io) = Some (ArrayObj refs)"
    and "readItems h refs = Some its"
  shows "cloneInvoice_heap r h =
    Some (length h + length its + 2,
          h @ DateObj t # map ItemObj its @
            [ArrayObj [Suc (length h) ..< Suc (length h) + length its],
             InvoiceObj (io\<lparr>InvoiceObject.invoiceDate := length h,
                           InvoiceObject.items := length h + length its + 1\<rparr>)])"
proof -
  have "readItems (h @ [DateObj t]) refs = Some its"
    by (rule readItems_append [OF assms(4)])
  from copyItems_spec [OF this]
  have "copyItems refs (h @ [DateObj t])
        = Some ([Suc (length h) ..< Suc (length h) + length its], h @ DateObj t # map ItemObj its)"
    by (simp del: upt_Suc)
  then show ?thesis
    unfolding cloneInvoice_heap_def
    by (simp add: assms alloc_def del: upt_Suc)
qed

lemma checks_agree:
  "(case check (validatePositiveNumber a ''Payment amount'')
          (check (validatePaymentAmountLimits env a)
          (check (validatePaymentMethod m)
          (check (validateDate d ''Payment date'')
          (check (validateNonEmptyString (Invoice.id iv) ''Invoice ID'')
          (if Invoice.status iv = CANCELLED
           then Inl (PaymentError ''Cannot process payment for a cancelled invoice'')
           else Inr ()))))) of
      Inl e \<Rightarrow> Some e | Inr _ \<Rightarrow> None)
   = (case processPayment_try env iv a m d st of Inl e \<Rightarrow> Some e | Inr _ \<Rightarrow> None)"
  unfolding processPayment_try_def check_def Let_def
  by (auto split: option.splits prod.splits)

lemma processPayment_heap_failed:
  assumes "readInvoice h r = Some iv" and "processPayment_throws env iv a m d"
  shows "processPayment_heap env r a m d st h =
    Some (\<lparr>PaymentResultRef.success = False,
           PaymentResultRef.payment = PaymentResult.payment (fst (processPayment env iv a m d st)),
           PaymentResultRef.invoice = r,
           PaymentResultRef.error = PaymentResult.error (fst (processPayment env iv a m d st))\<rparr>,
          snd (processPayment env iv a m d st), h)"
proof -
  from assms(1) obtain io t refs its where
    1: "lookup h r = Some (InvoiceObj io)" and
    5: "iv = \<lparr>Invoice.id = InvoiceObject.id io,
           Invoice.invoiceNumber = InvoiceObject.invoiceNumber io,
           Invoice.invoiceDate = Date t,
           Invoice.items = its,
           Invoice.subtotal = InvoiceObject.subtotal io,
           Invoice.totalAmount = InvoiceObject.totalAmount io,
           Invoice.totalTax = InvoiceObject.totalTax io,
           Invoice.outstandingAmount = InvoiceObject.outstandingAmount io,
           Invoice.status = InvoiceObject.status io\<rparr>"
    by (rule readInvoice_SomeE)
  have id: "InvoiceObject.id io = Invoice.id iv" and st: "InvoiceObject.status io = Invoice.status iv"
    by (simp_all add: 5)
  obtain e where e: "processPayment_try env iv a m d st = Inl e"
    using assms(2) processPayment_try_Inr [of env iv a m d st]
    by (cases "processPayment_try env iv a m d st") auto
  from checks_agree [of a env m d iv st]
  have c: "check (validatePositiveNumber a ''Payment amount'')
          (check (validatePaymentAmountLimits env a)
          (check (validatePaymentMethod m)
          (check (validateDate d ''Payment date'')
          (check (validateNonEmptyString (Invoice.id iv) ''Invoice ID'')
          (if Invoice.status iv = CANCELLED
           then Inl (PaymentError ''Cannot process payment for a cancelled invoice'')
           else Inr ()))))) = Inl e"
    unfolding e by (auto split: sum.splits)
  show ?thesis
    unfolding processPayment_heap_def processPayment_def
    by (simp add: 1 id st c e Let_def split: prod.splits)
qed

lemma processPayment_heap_succeeded:
  assumes "lookup h r = Some (InvoiceObj io)"
    and "lookup h (InvoiceObject.invoiceDate io) = Some (DateObj t)"
    and "lookup h (InvoiceObject.items io) = Some (ArrayObj refs)"
    and "readItems h refs = Some its"
    and "iv = \<lparr>Invoice.id = InvoiceObject.id io,
           Invoice.invoiceNumber = InvoiceObject.invoiceNumber io,
           Invoice.invoiceDate = Date t,
           Invoice.items = its,
           Invoice.subtotal = InvoiceObject.subtotal io,
           Invoice.totalAmount = InvoiceObject.totalAmount io,
           Invoice.totalTax = InvoiceObject.totalTax io,
           Invoice.outstandingAmount = InvoiceObject.outstandingAmount io,
           Invoice.status = InvoiceObject.status io\<rparr>"
    and "\<not> processPayment_throws env iv a m d"
  shows "processPayment_heap env r a m d st h =
    Some (\<lparr>PaymentResultRef.success = True,
           PaymentResultRef.payment = PaymentResult.payment (fst (processPayment env iv a m d st)),
           PaymentResultRef.invoice = length h + length its + 3,
           PaymentResultRef.error = None\<rparr>,
          snd (processPayment env iv a m d st),
          h @ DateObj t # map ItemObj its @
            [ArrayObj [Suc (length h) ..< Suc (length h) + length its],
             InvoiceObj (io\<lparr>InvoiceObject.invoiceDate := length h,
                           InvoiceObject.items := length h + length its + 1,
                           InvoiceObject.outstandingAmount :=
                             roundToTwoDecimals (js_sub (InvoiceObject.outstandingAmount io) a)\<rparr>),
             InvoiceObj (io\<lparr>InvoiceObject.invoiceDate := length h,
                           InvoiceObject.items := length h + length its + 1,
                           InvoiceObject.outstandingAmount :=
                             roundToTwoDecimals (js_sub (InvoiceObject.outstandingAmount io) a),
                           InvoiceObject.status :=
                             Invoice.status (PaymentResult.invoice (fst (processPayment env iv a m d st)))\<rparr>)])"
proof -
  have id: "InvoiceObject.id io = Invoice.id iv" and st: "InvoiceObject.status io = Invoice.status iv"
    by (simp_all add: assms(5))
  obtain res where res: "processPayment_try env iv a m d st = Inr res"
    using assms(6) processPayment_try_Inl [of env iv a m d st]
    by (cases "processPayment_try env iv a m d st") auto
  from checks_agree [of a env m d iv st]
  have c: "check (validatePositiveNumber a ''Payment amount'')
          (check (validatePaymentAmountLimits env a)
          (check (validatePaymentMethod m)
          (check (validateDate d ''Payment date'')
          (check (validateNonEmptyString (Invoice.id iv) ''Invoice ID'')
          (if Invoice.status iv = CANCELLED
           then Inl (PaymentError ''Cannot process payment for a cancelled invoice'')
           else Inr ()))))) = Inr ()"
    unfolding res by (auto split: sum.splits)
  note clone = cloneInvoice_heap_spec [OF assms(1-4)]
  have pure: "processPayment env iv a m d st =
     (\<lparr>PaymentResult.success = True,
            PaymentResult.payment =
              \<lparr>Payment.id = fst (generateId env st),
               Payment.invoiceId = Invoice.id iv,
               Payment.paymentMethod = m,
               Payment.amount = a,
               Payment.paymentDate = d,
               Payment.referenceNumber = fst (generatePaymentReference env d (snd (generateId env st))),
               Payment.status = COMPLETED\<rparr>,
            PaymentResult.invoice =
              updateInvoiceStatus (iv\<lparr>Invoice.outstandingAmount :=
                roundToTwoDecimals (js_sub (Invoice.outstandingAmount iv) a)\<rparr>),
            PaymentResult.error = None\<rparr>,
           snd (generatePaymentReference env d (snd (generateId env st))))"
    by (rule processPayment_succeeded [OF assms(6)])
  have u: "length h + length its + 2 = length (h @ DateObj t # map ItemObj its @
            [ArrayObj [Suc (length h) ..< Suc (length h) + length its]])"
    by simp
  show ?thesis
    unfolding processPayment_heap_def pure
    apply (simp add: assms(1) id st c clone Let_def del: upt_Suc split: prod.splits)
    apply (simp add: lookup_def nth_append updateInvoiceStatus_heap_def alloc_def
        list_update_append updateInvoiceStatus_def assms(5) Let_def del: upt_Suc)
    done
qed

text \<open>
  Claim C5. Let \<open>r\<close> refer to an invoice with value \<open>iv\<close> in the store \<open>h\<close>. Every call
  of \<open>processPayment\<close> returns a result and a store \<open>h1\<close> that extends \<open>h\<close>: every object
  of \<open>h\<close> is unchanged, so the input invoice still has the value \<open>iv\<close>. The result is
  the one of \<open>processPayment\<close> on values, whose invoice differs from \<open>iv\<close> at most in
  \<open>outstandingAmount\<close> and \<open>status\<close>. On success the returned reference is a new
  address, different from \<open>r\<close>, of an invoice object whose date, array and items are new
  objects too. On failure the returned reference is \<open>r\<close> itself, the store is \<open>h\<close> and
  the invoice is \<open>iv\<close>.
\<close>

theorem processPayment_heap_immutability:
  assumes "readInvoice h r = Some iv"
  shows "\<exists>res st1 h1.
      processPayment_heap env r a m d st h = Some (res, st1, h1)
    \<and> take (length h) h1 = h
    \<and> readInvoice h1 r = Some iv
    \<and> PaymentResultRef.success res = PaymentResult.success (fst (processPayment env iv a m d st))
    \<and> PaymentResultRef.payment res = PaymentResult.payment (fst (processPayment env iv a m d st))
    \<and> PaymentResultRef.error res = PaymentResult.error (fst (processPayment env iv a m d st))
    \<and> st1 = snd (processPayment env iv a m d st)
    \<and> readInvoice h1 (PaymentResultRef.invoice res)
        = Some (PaymentResult.invoice (fst (processPayment env iv a m d st)))
    \<and> (\<exists>x s. PaymentResult.invoice (fst (processPayment env iv a m d st))
              = iv\<lparr>Invoice.outstandingAmount := x, Invoice.status := s\<rparr>)
    \<and> (PaymentResultRef.success res \<longrightarrow>
          length h \<le> PaymentResultRef.invoice res
        \<and> PaymentResultRef.invoice res \<noteq> r
        \<and> (\<exists>io refs. lookup h1 (PaymentResultRef.invoice res) = Some (InvoiceObj io)
              \<and> length h \<le> InvoiceObject.invoiceDate io
              \<and> length h \<le> InvoiceObject.items io
              \<and> lookup h1 (InvoiceObject.items io) = Some (ArrayObj refs)
              \<and> (\<forall>x \<in> set refs. length h \<le> x)))
    \<and> (\<not> PaymentResultRef.success res \<longrightarrow>
          PaymentResultRef.invoice res = r \<and> h1 = h
        \<and> PaymentResult.invoice (fst (processPayment env iv a m d st)) = iv)"
proof (cases "processPayment_throws env iv a m d")
  case True
  note heap = processPayment_heap_failed [OF assms True, of st]
  from processPayment_failed [OF True, of st]
  have pure: "\<not> PaymentResult.success (fst (processPayment env iv a m d st))"
    "PaymentResult.invoice (fst (processPayment env iv a m d st)) = iv"
    by auto
  have "iv = iv\<lparr>Invoice.outstandingAmount := Invoice.outstandingAmount iv,
                 Invoice.status := Invoice.status iv\<rparr>"
    by simp
  then have same: "\<exists>x s. iv = iv\<lparr>Invoice.outstandingAmount := x, Invoice.status := s\<rparr>"
    by blast
  show ?thesis
    unfolding heap using pure assms same by simp
next
  case False
  from assms obtain io t refs its where
    1: "lookup h r = Some (InvoiceObj io)" and
    2: "lookup h (InvoiceObject.invoiceDate io) = Some (DateObj t)" and
    3: "lookup h (InvoiceObject.items io) = Some (ArrayObj refs)" and
    4: "readItems h refs = Some its" and
    5: "iv = \<lparr>Invoice.id = InvoiceObject.id io,
           Invoice.invoiceNumber = InvoiceObject.invoiceNumber io,
           Invoice.invoiceDate = Date t,
           Invoice.items = its,
           Invoice.subtotal = InvoiceObject.subtotal io,
           Invoice.totalAmount = InvoiceObject.totalAmount io,
           Invoice.totalTax = InvoiceObject.totalTax io,
           Invoice.outstandingAmount = InvoiceObject.outstandingAmount io,
           Invoice.status = InvoiceObject.status io\<rparr>"
    by (rule readInvoice_SomeE)
  let ?x = "roundToTwoDecimals (js_sub (InvoiceObject.outstandingAmount io) a)"
  define s where "s = Invoice.status (PaymentResult.invoice (fst (processPayment env iv a m d st)))"
  let ?uo = "io\<lparr>InvoiceObject.invoiceDate := length h,
                 InvoiceObject.items := length h + length its + 1,
                 InvoiceObject.outstandingAmount := ?x\<rparr>"
  let ?fo = "io\<lparr>InvoiceObject.invoiceDate := length h,
                 InvoiceObject.items := length h + length its + 1,
                 InvoiceObject.outstandingAmount := ?x,
                 InvoiceObject.status := s\<rparr>"
  let ?newRefs = "[Suc (length h) ..< Suc (length h) + length its]"
  let ?h1 = "h @ DateObj t # map ItemObj its @ [ArrayObj ?newRefs, InvoiceObj ?uo, InvoiceObj ?fo]"
  let ?f = "length h + length its + 3"
  note heap = processPayment_heap_succeeded [OF 1 2 3 4 5 False, of st, folded s_def]
  note pure = processPayment_succeeded [OF False, of st]
  have r: "r < length h" by (rule lookup_Some_less [OF 1])
  have final: "lookup ?h1 ?f = Some (InvoiceObj ?fo)"
    by (simp add: lookup_def nth_append del: upt_Suc)
  have date: "lookup ?h1 (InvoiceObject.invoiceDate ?fo) = Some (DateObj t)"
    by (simp add: lookup_new del: upt_Suc)
  have array: "lookup ?h1 (InvoiceObject.items ?fo) = Some (ArrayObj ?newRefs)"
    by (simp add: lookup_def nth_append del: upt_Suc)
  have "readItems ((h @ [DateObj t]) @ map ItemObj its @ [ArrayObj ?newRefs, InvoiceObj ?uo, InvoiceObj ?fo])
          [length (h @ [DateObj t]) ..< length (h @ [DateObj t]) + length its] = Some its"
    by (rule readItems_new)
  then have newItems: "readItems ?h1 ?newRefs = Some its"
    by (simp del: upt_Suc)
  have pureInvoice: "PaymentResult.invoice (fst (processPayment env iv a m d st))
      = iv\<lparr>Invoice.outstandingAmount := ?x, Invoice.status := s\<rparr>"
    unfolding s_def pure by (simp add: updateInvoiceStatus_def Let_def 5)
  have readFinal: "readInvoice ?h1 ?f = Some (PaymentResult.invoice (fst (processPayment env iv a m d st)))"
    unfolding readInvoice_I [OF final date array newItems] pureInvoice
    by (simp add: 5)
  have readInput: "readInvoice ?h1 r = Some iv"
    by (rule readInvoice_append [OF assms])
  have succ: "PaymentResult.success (fst (processPayment env iv a m d st))"
    and err: "PaymentResult.error (fst (processPayment env iv a m d st)) = None"
    unfolding pure by simp_all
  have fresh: "\<exists>io refs. lookup ?h1 ?f = Some (InvoiceObj io)
              \<and> length h \<le> InvoiceObject.invoiceDate io
              \<and> length h \<le> InvoiceObject.items io
              \<and> lookup ?h1 (InvoiceObject.items io) = Some (ArrayObj refs)
              \<and> (\<forall>x \<in> set refs. length h \<le> x)"
    using final array by (intro exI [of _ ?fo] exI [of _ ?newRefs]) (simp del: upt_Suc)
  have differs: "\<exists>x s. PaymentResult.invoice (fst (processPayment env iv a m d st))
              = iv\<lparr>Invoice.outstandingAmount := x, Invoice.status := s\<rparr>"
    using pureInvoice by blast
  let ?res = "\<lparr>PaymentResultRef.success = True,
           PaymentResultRef.payment = PaymentResult.payment (fst (processPayment env iv a m d st)),
           PaymentResultRef.invoice = ?f,
           PaymentResultRef.error = None\<rparr>"
  have sel: "PaymentResultRef.success ?res" "PaymentResultRef.invoice ?res = ?f"
    "PaymentResultRef.error ?res = None"
    "PaymentResultRef.payment ?res = PaymentResult.payment (fst (processPayment env iv a m d st))"
    by simp_all
  show ?thesis
  proof (rule exI [of _ ?res], rule exI [of _ "snd (processPayment env iv a m d st)"],
      rule exI [of _ ?h1], intro conjI impI)
    show "processPayment_heap env r a m d st h = Some (?res, snd (processPayment env iv a m d st), ?h1)"
      by (rule heap)
    show "take (length h) ?h1 = h" by simp
    show "readInvoice ?h1 r = Some iv" by (rule readInput)
    show "PaymentResultRef.success ?res = PaymentResult.success (fst (processPayment env iv a m d st))"
      using succ sel(1) by blast
    show "PaymentResultRef.payment ?res = PaymentResult.payment (fst (processPayment env iv a m d st))"
      by (rule sel(4))
    show "PaymentResultRef.error ?res = PaymentResult.error (fst (processPayment env iv a m d st))"
      unfolding sel(3) err by (rule refl)
    show "snd (processPayment env iv a m d st) = snd (processPayment env iv a m d st)"
      by (rule refl)
    show "readInvoice ?h1 (PaymentResultRef.invoice ?res)
        = Some (PaymentResult.invoice (fst (processPayment env iv a m d st)))"
      unfolding sel(2) by (rule readFinal)
    show "\<exists>x s. PaymentResult.invoice (fst (processPayment env iv a m d st))
              = iv\<lparr>Invoice.outstandingAmount := x, Invoice.status := s\<rparr>"
      by (rule differs)
    show "length h \<le> PaymentResultRef.invoice ?res"
      unfolding sel(2) by simp
    show "PaymentResultRef.invoice ?res \<noteq> r"
      unfolding sel(2) using r by simp
    show "\<exists>io refs. lookup ?h1 (PaymentResultRef.invoice ?res) = Some (InvoiceObj io)
              \<and> length h \<le> InvoiceObject.invoiceDate io
              \<and> length h \<le> InvoiceObject.items io
              \<and> lookup ?h1 (InvoiceObject.items io) = Some (ArrayObj refs)
              \<and> (\<forall>x \<in> set refs. length h \<le> x)"
      unfolding sel(2) by (rule fresh)
    show "PaymentResultRef.invoice ?res = r" if "\<not> PaymentResultRef.success ?res"
      using that sel(1) by blast
    show "?h1 = h" if "\<not> PaymentResultRef.success ?res"
      using that sel(1) by blast
    show "PaymentResult.invoice (fst (processPayment env iv a m d st)) = iv"
      if "\<not> PaymentResultRef.success ?res"
      using that sel(1) by blast
  qed
qed

text \<open>
  The theorem at the store of the sample invoice and a cash payment of \<open>150.00\<close>.
\<close>

theorem processPayment_heap_immutability_witness:
  "readInvoice heap300 4 = Some invoice300
   \<and> (\<exists>res st1 h1.
        processPayment_heap defaultEnv 4 (Fin 150) ''CASH'' validDate initialState heap300
          = Some (res, st1, h1)
      \<and> take (length heap300) h1 = heap300
      \<and> readInvoice h1 4 = Some invoice300
      \<and> PaymentResultRef.success res
      \<and> PaymentResultRef.invoice res \<noteq> 4
      \<and> readInvoice h1 (PaymentResultRef.invoice res)
          = Some (invoice300\<lparr>Invoice.outstandingAmount := Fin 150, Invoice.status := PARTIALLY_PAID\<rparr>))"
proof -
  have rd: "readInvoice heap300 4 = Some invoice300"
    by (simp add: readInvoice_def heap300_def lookup_def invoice300_def)
  have ok: "\<not> processPayment_throws defaultEnv invoice300 (Fin 150) ''CASH'' validDate"
    by (simp add: invoice300_def defaultEnv_def validDate_def PaymentMethod_values_def js_le_def
        js_gt_def trim_def isWhiteSpace_def binary64_eval)
  have pure: "PaymentResult.success (fst (processPayment defaultEnv invoice300 (Fin 150) ''CASH'' validDate initialState))"
    "PaymentResult.invoice (fst (processPayment defaultEnv invoice300 (Fin 150) ''CASH'' validDate initialState))
      = invoice300\<lparr>Invoice.outstandingAmount := Fin 150, Invoice.status := PARTIALLY_PAID\<rparr>"
    unfolding processPayment_succeeded [OF ok]
    by (simp_all add: updateInvoiceStatus_def invoice300_def roundToTwoDecimals_def js_sub_def js_gt_def
        binary64_eval)
  from processPayment_heap_immutability
    [OF rd, of defaultEnv "Fin 150" "''CASH''" validDate initialState]
  obtain res st1 h1 where
    "processPayment_heap defaultEnv 4 (Fin 150) ''CASH'' validDate initialState heap300
          = Some (res, st1, h1)"
    "take (length heap300) h1 = heap300"
    "readInvoice h1 4 = Some invoice300"
    "PaymentResultRef.success res
       = PaymentResult.success (fst (processPayment defaultEnv invoice300 (Fin 150) ''CASH'' validDate initialState))"
    "readInvoice h1 (PaymentResultRef.invoice res)
        = Some (PaymentResult.invoice (fst (processPayment defaultEnv invoice300 (Fin 150) ''CASH'' validDate initialState)))"
    "PaymentResultRef.success res \<longrightarrow> PaymentResultRef.invoice res \<noteq> 4"
    by blast
  then show ?thesis
    unfolding pure(2) using rd pure(1) by blast
qed

end

